theory Spec2Isabelle
  imports Complex_Main "HOL-Library.Word"
begin

section \<open>control.c: the two pump controllers\<close>

text \<open>
  Modelled from the spec: avr\_support.h, which declares \<open>avr_pump_state_t\<close>, is not
  among the sources. A pump state is OFF or ON; the controllers name the two enumerators
  \<open>AVR_PUMP_STATE_OFF\<close> and \<open>AVR_PUMP_STATE_ON\<close> and no other.
\<close>

datatype avr_pump_state_t = AVR_PUMP_STATE_OFF | AVR_PUMP_STATE_ON

type_synonym TickType_t = "32 word"
type_synonym uint32_t = "32 word"

subsection \<open>control\_cp\_task\<close>

text \<open>
  The values that one pass of the circulation pump loop reads from the datastore:
  \<open>RESOURCE_ID_TEMP_VALUE\<close> instances 0 and 1 (the locals \<open>t1\<close> and \<open>t2\<close>) and the
  two thresholds. The C type \<open>float\<close> is the type parameter \<open>'f\<close>: the loop uses its
  subtraction and its comparisons and nothing else.
\<close>

record 'f cp_inputs =
  temp_value_0 :: 'f
  temp_value_1 :: 'f
  control_cp_on_delta :: 'f
  control_cp_off_delta :: 'f

text \<open>
  The transition part of the loop body (the two branches on \<open>state\<close>): the new state and
  the local flag \<open>transition\<close>.
\<close>

definition control_cp_transitions ::
  "('f::{minus,ord}) cp_inputs \<Rightarrow> avr_pump_state_t \<Rightarrow> avr_pump_state_t \<times> bool" where
  "control_cp_transitions inp state =
     (let t1 = temp_value_0 inp; t2 = temp_value_1 inp in
      if state = AVR_PUMP_STATE_OFF then
        (let delta = control_cp_on_delta inp in
         if t1 - t2 \<ge> delta then (AVR_PUMP_STATE_ON, True) else (state, False))
      else
        (let delta = control_cp_off_delta inp in
         if t1 - t2 \<le> delta then (AVR_PUMP_STATE_OFF, True) else (state, False)))"

text \<open>
  One pass of the loop: the new state and the arguments of the calls of
  \<open>avr_support_set_cp_pump\<close> made in this pass, in order.
\<close>

definition control_cp_step ::
  "('f::{minus,ord}) cp_inputs \<Rightarrow> avr_pump_state_t \<Rightarrow> avr_pump_state_t \<times> avr_pump_state_t list" where
  "control_cp_step inp state =
     (case control_cp_transitions inp state of
        (state', transition) \<Rightarrow> (state', if transition then [state'] else []))"

text \<open>
  The task: the state starts as \<open>AVR_PUMP_STATE_OFF\<close>, the pump is set to OFF once, then
  the loop runs one pass per period. The list holds the datastore values of the
  successive passes; the result is the state and all the pump calls made.
\<close>

fun control_cp_loop ::
  "('f::{minus,ord}) cp_inputs list \<Rightarrow> avr_pump_state_t \<Rightarrow> avr_pump_state_t list
     \<Rightarrow> avr_pump_state_t \<times> avr_pump_state_t list" where
  "control_cp_loop [] state calls = (state, calls)"
| "control_cp_loop (inp # inps) state calls =
     (case control_cp_step inp state of
        (state', out) \<Rightarrow> control_cp_loop inps state' (calls @ out))"

definition control_cp_task ::
  "('f::{minus,ord}) cp_inputs list \<Rightarrow> avr_pump_state_t \<times> avr_pump_state_t list" where
  "control_cp_task inps = control_cp_loop inps AVR_PUMP_STATE_OFF [AVR_PUMP_STATE_OFF]"

subsection \<open>control\_pp\_task\<close>

datatype state_t = STATE_PP_OFF | STATE_PP_ON | STATE_PP_PAUSE

text \<open>
  The values one pass of the pool pump loop works with: the tick count taken at the top of
  the pass (\<open>last_wake_time\<close>) and the datastore resources it reads.
\<close>

record 'f pp_inputs =
  last_wake_time :: TickType_t
  flow_rate :: 'f
  pumps_cp_state :: avr_pump_state_t
  control_flow_threshold :: 'f
  control_pp_cycle_count :: uint32_t
  control_pp_cycle_on_duration :: 'f
  control_pp_cycle_pause_duration :: 'f

text \<open>The locals \<open>state\<close>, \<open>cycle_start_time\<close> and \<open>n\<close> that live across passes.\<close>

record pp_vars =
  pp_state :: state_t
  pp_cycle_start_time :: TickType_t
  pp_n :: uint32_t

text \<open>
  One pass of the loop (the \<open>switch\<close>): the new locals and the arguments of the calls of
  \<open>avr_support_set_pp_pump\<close> made in this pass. The parameter \<open>to_ticks\<close> stands for the
  conversion \<open>(TickType_t)(duration * configTICK_RATE_HZ)\<close>, whose macro comes from the
  FreeRTOS configuration. Tick arithmetic is 32-bit and wraps; \<open>--n\<close> is 32-bit too.
\<close>

definition control_pp_step ::
  "('f \<Rightarrow> TickType_t) \<Rightarrow> ('f::ord) pp_inputs \<Rightarrow> pp_vars \<Rightarrow> pp_vars \<times> avr_pump_state_t list" where
  "control_pp_step to_ticks inp v =
     (case pp_state v of
        STATE_PP_OFF \<Rightarrow>
          if pumps_cp_state inp = AVR_PUMP_STATE_ON \<and> flow_rate inp \<le> control_flow_threshold inp
          then (\<lparr>pp_state = STATE_PP_ON,
                 pp_cycle_start_time = last_wake_time inp,
                 pp_n = control_pp_cycle_count inp - 1\<rparr>, [AVR_PUMP_STATE_ON])
          else (v, [])
      | STATE_PP_ON \<Rightarrow>
          (let cycle_end_time = pp_cycle_start_time v + to_ticks (control_pp_cycle_on_duration inp) in
           if last_wake_time inp \<ge> cycle_end_time
           then (v\<lparr>pp_state := STATE_PP_PAUSE, pp_cycle_start_time := last_wake_time inp\<rparr>,
                 [AVR_PUMP_STATE_OFF])
           else (v, []))
      | STATE_PP_PAUSE \<Rightarrow>
          (let cycle_end_time = pp_cycle_start_time v + to_ticks (control_pp_cycle_pause_duration inp) in
           if pp_n v > 0 then
             (if last_wake_time inp \<ge> cycle_end_time
              then (v\<lparr>pp_state := STATE_PP_ON, pp_cycle_start_time := last_wake_time inp,
                      pp_n := pp_n v - 1\<rparr>, [AVR_PUMP_STATE_ON])
              else (v, []))
           else
             (if last_wake_time inp \<ge> cycle_end_time
              then (v\<lparr>pp_state := STATE_PP_OFF\<rparr>, [AVR_PUMP_STATE_OFF])
              else (v, []))))"

text \<open>The locals as the task initialises them.\<close>

definition pp_init :: pp_vars where
  "pp_init = \<lparr>pp_state = STATE_PP_OFF, pp_cycle_start_time = 0, pp_n = 0\<rparr>"

text \<open>
  The loop over successive passes. The result lists, pass by pass, the locals after the
  pass together with the pump calls of the pass.
\<close>

fun control_pp_loop ::
  "('f \<Rightarrow> TickType_t) \<Rightarrow> ('f::ord) pp_inputs list \<Rightarrow> pp_vars
     \<Rightarrow> (pp_vars \<times> avr_pump_state_t list) list" where
  "control_pp_loop to_ticks [] v = []"
| "control_pp_loop to_ticks (inp # inps) v =
     (case control_pp_step to_ticks inp v of
        (v', out) \<Rightarrow> (v', out) # control_pp_loop to_ticks inps v')"

text \<open>
  Cycle accounting over a run: the number of ON to PAUSE transitions made before the
  controller is back in OFF, or \<open>None\<close> when the passes given end before that.
\<close>

fun pairs_until_off ::
  "('f \<Rightarrow> TickType_t) \<Rightarrow> ('f::ord) pp_inputs list \<Rightarrow> pp_vars \<Rightarrow> nat option" where
  "pairs_until_off to_ticks [] v = (if pp_state v = STATE_PP_OFF then Some 0 else None)"
| "pairs_until_off to_ticks (inp # inps) v =
     (if pp_state v = STATE_PP_OFF then Some 0
      else
        (let v' = fst (control_pp_step to_ticks inp v) in
         case pairs_until_off to_ticks inps v' of
           None \<Rightarrow> None
         | Some k \<Rightarrow>
             Some (if pp_state v = STATE_PP_ON \<and> pp_state v' = STATE_PP_PAUSE then Suc k else k)))"

section \<open>display.c: pages, navigation and the output layer\<close>

text \<open>
  The static functions of display.c whose names begin with an underscore
  (\<open>_handle_transition\<close>, \<open>_clear\<close>, \<open>_split_time\<close> and so on) appear here without
  it.
\<close>

subsection \<open>Page identifiers and input events\<close>

text \<open>
  Modelled from the spec: display.h, which declares the enumeration
  \<open>display_page_id_t\<close>, is not among the sources. The pages are numbered from zero in
  the order of the page registry, as the assertion and the position check in
  \<open>dispatch_to_handler\<close> expect; \<open>DISPLAY_PAGE_LAST\<close> is the number of pages; the
  sentinel \<open>DISPLAY_PAGE_IGNORE\<close> is negative, outside the range of pages.
\<close>

type_synonym display_page_id_t = int

definition DISPLAY_PAGE_IGNORE :: display_page_id_t where "DISPLAY_PAGE_IGNORE = - 1"
definition DISPLAY_PAGE_BLANK :: display_page_id_t where "DISPLAY_PAGE_BLANK = 0"
definition DISPLAY_PAGE_MAIN :: display_page_id_t where "DISPLAY_PAGE_MAIN = 1"
definition DISPLAY_PAGE_SENSORS_TEMP :: display_page_id_t where "DISPLAY_PAGE_SENSORS_TEMP = 2"
definition DISPLAY_PAGE_SENSORS_TEMP_2 :: display_page_id_t where "DISPLAY_PAGE_SENSORS_TEMP_2 = 3"
definition DISPLAY_PAGE_SENSORS_LIGHT :: display_page_id_t where "DISPLAY_PAGE_SENSORS_LIGHT = 4"
definition DISPLAY_PAGE_SENSORS_FLOW :: display_page_id_t where "DISPLAY_PAGE_SENSORS_FLOW = 5"
definition DISPLAY_PAGE_POWER :: display_page_id_t where "DISPLAY_PAGE_POWER = 6"
definition DISPLAY_PAGE_SWITCHES :: display_page_id_t where "DISPLAY_PAGE_SWITCHES = 7"
definition DISPLAY_PAGE_PUMP_STATUS :: display_page_id_t where "DISPLAY_PAGE_PUMP_STATUS = 8"
definition DISPLAY_PAGE_CP_CONTROL :: display_page_id_t where "DISPLAY_PAGE_CP_CONTROL = 9"
definition DISPLAY_PAGE_PP_CONTROL :: display_page_id_t where "DISPLAY_PAGE_PP_CONTROL = 10"
definition DISPLAY_PAGE_ALARM :: display_page_id_t where "DISPLAY_PAGE_ALARM = 11"
definition DISPLAY_PAGE_WIFI_STATUS :: display_page_id_t where "DISPLAY_PAGE_WIFI_STATUS = 12"
definition DISPLAY_PAGE_MQTT_STATUS :: display_page_id_t where "DISPLAY_PAGE_MQTT_STATUS = 13"
definition DISPLAY_PAGE_RESOURCE_STATUS :: display_page_id_t where "DISPLAY_PAGE_RESOURCE_STATUS = 14"
definition DISPLAY_PAGE_AVR_STATUS :: display_page_id_t where "DISPLAY_PAGE_AVR_STATUS = 15"
definition DISPLAY_PAGE_LAST :: display_page_id_t where "DISPLAY_PAGE_LAST = 16"

definition INITIAL_PAGE :: display_page_id_t where "INITIAL_PAGE = DISPLAY_PAGE_MAIN"

text \<open>
  Modelled from the spec: button.h and rotary\_encoder.h, which declare the event codes,
  are not among the sources. The \<open>int input\<close> of \<open>_handle_transition\<close> is one of the
  four input kinds, under the names the \<open>switch\<close> uses, or any other number, which
  takes the \<open>default\<close> branch.
\<close>

datatype input_t =
    ROTARY_ENCODER_EVENT_CLOCKWISE
  | ROTARY_ENCODER_EVENT_COUNTER_CLOCKWISE
  | BUTTON_EVENT_SHORT
  | BUTTON_EVENT_LONG
  | INPUT_OTHER int

datatype log_entry =
    LOGE_no_handler display_page_id_t
  | LOGE_spec_mismatch display_page_id_t
  | LOGE_out_of_range display_page_id_t

subsection \<open>The page transition table\<close>

record transition_t =
  current :: display_page_id_t
  on_counter_clockwise :: display_page_id_t
  on_clockwise :: display_page_id_t
  on_short :: display_page_id_t
  on_long :: display_page_id_t

text \<open>One row of the table, its fields in the order of the C initialiser.\<close>

definition transition_row ::
  "display_page_id_t \<Rightarrow> display_page_id_t \<Rightarrow> display_page_id_t \<Rightarrow> display_page_id_t
     \<Rightarrow> display_page_id_t \<Rightarrow> transition_t" where
  "transition_row c ccw cw s l =
     \<lparr>current = c, on_counter_clockwise = ccw, on_clockwise = cw, on_short = s, on_long = l\<rparr>"

definition transitions :: "transition_t list" where
  "transitions = [
     transition_row DISPLAY_PAGE_BLANK DISPLAY_PAGE_MAIN DISPLAY_PAGE_MAIN DISPLAY_PAGE_IGNORE DISPLAY_PAGE_IGNORE,
     transition_row DISPLAY_PAGE_MAIN DISPLAY_PAGE_AVR_STATUS DISPLAY_PAGE_SENSORS_TEMP DISPLAY_PAGE_IGNORE DISPLAY_PAGE_IGNORE,
     transition_row DISPLAY_PAGE_SENSORS_TEMP DISPLAY_PAGE_MAIN DISPLAY_PAGE_SENSORS_LIGHT DISPLAY_PAGE_SENSORS_TEMP_2 DISPLAY_PAGE_IGNORE,
     transition_row DISPLAY_PAGE_SENSORS_TEMP_2 DISPLAY_PAGE_MAIN DISPLAY_PAGE_SENSORS_LIGHT DISPLAY_PAGE_SENSORS_TEMP DISPLAY_PAGE_IGNORE,
     transition_row DISPLAY_PAGE_SENSORS_LIGHT DISPLAY_PAGE_SENSORS_TEMP DISPLAY_PAGE_SENSORS_FLOW DISPLAY_PAGE_IGNORE DISPLAY_PAGE_IGNORE,
     transition_row DISPLAY_PAGE_SENSORS_FLOW DISPLAY_PAGE_SENSORS_LIGHT DISPLAY_PAGE_POWER DISPLAY_PAGE_IGNORE DISPLAY_PAGE_IGNORE,
     transition_row DISPLAY_PAGE_POWER DISPLAY_PAGE_SENSORS_FLOW DISPLAY_PAGE_SWITCHES DISPLAY_PAGE_IGNORE DISPLAY_PAGE_IGNORE,
     transition_row DISPLAY_PAGE_SWITCHES DISPLAY_PAGE_SENSORS_FLOW DISPLAY_PAGE_PUMP_STATUS DISPLAY_PAGE_IGNORE DISPLAY_PAGE_IGNORE,
     transition_row DISPLAY_PAGE_PUMP_STATUS DISPLAY_PAGE_SWITCHES DISPLAY_PAGE_CP_CONTROL DISPLAY_PAGE_IGNORE DISPLAY_PAGE_IGNORE,
     transition_row DISPLAY_PAGE_CP_CONTROL DISPLAY_PAGE_PUMP_STATUS DISPLAY_PAGE_PP_CONTROL DISPLAY_PAGE_IGNORE DISPLAY_PAGE_IGNORE,
     transition_row DISPLAY_PAGE_PP_CONTROL DISPLAY_PAGE_CP_CONTROL DISPLAY_PAGE_ALARM DISPLAY_PAGE_IGNORE DISPLAY_PAGE_IGNORE,
     transition_row DISPLAY_PAGE_ALARM DISPLAY_PAGE_PP_CONTROL DISPLAY_PAGE_WIFI_STATUS DISPLAY_PAGE_IGNORE DISPLAY_PAGE_IGNORE,
     transition_row DISPLAY_PAGE_WIFI_STATUS DISPLAY_PAGE_ALARM DISPLAY_PAGE_MQTT_STATUS DISPLAY_PAGE_IGNORE DISPLAY_PAGE_IGNORE,
     transition_row DISPLAY_PAGE_MQTT_STATUS DISPLAY_PAGE_WIFI_STATUS DISPLAY_PAGE_RESOURCE_STATUS DISPLAY_PAGE_IGNORE DISPLAY_PAGE_IGNORE,
     transition_row DISPLAY_PAGE_RESOURCE_STATUS DISPLAY_PAGE_MQTT_STATUS DISPLAY_PAGE_AVR_STATUS DISPLAY_PAGE_IGNORE DISPLAY_PAGE_IGNORE,
     transition_row DISPLAY_PAGE_AVR_STATUS DISPLAY_PAGE_RESOURCE_STATUS DISPLAY_PAGE_MAIN DISPLAY_PAGE_IGNORE DISPLAY_PAGE_IGNORE]"

text \<open>
  \<open>_handle_transition\<close>: the table is indexed by the current page, inside the range check;
  the field \<open>current\<close> of the row is not read. The \<open>default\<close> branch logs the
  rejected input and keeps the page.
\<close>

definition handle_transition :: "input_t \<Rightarrow> display_page_id_t \<Rightarrow> display_page_id_t" where
  "handle_transition input current_page =
     (if current_page \<ge> 0 \<and> current_page < DISPLAY_PAGE_LAST then
        (case input of
           ROTARY_ENCODER_EVENT_CLOCKWISE \<Rightarrow> on_clockwise (transitions ! nat current_page)
         | ROTARY_ENCODER_EVENT_COUNTER_CLOCKWISE \<Rightarrow> on_counter_clockwise (transitions ! nat current_page)
         | BUTTON_EVENT_SHORT \<Rightarrow> on_short (transitions ! nat current_page)
         | BUTTON_EVENT_LONG \<Rightarrow> on_long (transitions ! nat current_page)
         | INPUT_OTHER _ \<Rightarrow> current_page)
      else DISPLAY_PAGE_BLANK)"

subsection \<open>The page buffer\<close>

definition LCD_NUM_ROWS :: nat where "LCD_NUM_ROWS = 4"
definition LCD_NUM_COLUMNS :: nat where "LCD_NUM_COLUMNS = 40"
definition LCD_NUM_VISIBLE_COLUMNS :: nat where "LCD_NUM_VISIBLE_COLUMNS = 20"

text \<open>
  \<open>page_buffer_t\<close> holds four pointers, each to its own array of \<open>LCD_NUM_COLUMNS + 1\<close>
  bytes allocated by \<open>display_task\<close>. A row is the list of the bytes of its array; the C
  string in it ends before the first zero byte.
\<close>

record page_buffer_t =
  row :: "string list"

definition NUL :: char where "NUL = CHR 0x00"

text \<open>
  \<open>strlen\<close> counts the bytes before the first zero byte. In an array without a zero byte
  the C function reads past the end; here the count is then the size of the array.
\<close>

definition strlen :: "string \<Rightarrow> nat" where
  "strlen s = length (takeWhile (\<lambda>c. c \<noteq> NUL) s)"

text \<open>The C string held in a row: the bytes before the first zero byte.\<close>

definition c_str :: "string \<Rightarrow> string" where
  "c_str s = takeWhile (\<lambda>c. c \<noteq> NUL) s"

text \<open>A buffer as \<open>display_task\<close> allocates it.\<close>

definition buffer_allocated :: "page_buffer_t \<Rightarrow> bool" where
  "buffer_allocated b \<longleftrightarrow>
     length (row b) = LCD_NUM_ROWS \<and> list_all (\<lambda>r. length r = LCD_NUM_COLUMNS + 1) (row b)"

text \<open>The assignment \<open>buffer->row[i][j] = c\<close>.\<close>

definition set_row_char :: "nat \<Rightarrow> nat \<Rightarrow> char \<Rightarrow> page_buffer_t \<Rightarrow> page_buffer_t" where
  "set_row_char i j c b = b\<lparr>row := (row b)[i := (row b ! i)[j := c]]\<rparr>"

text \<open>\<open>_handle_page_blank\<close>: every row becomes the empty string.\<close>

definition handle_page_blank :: "page_buffer_t \<Rightarrow> page_buffer_t" where
  "handle_page_blank page_buffer = fold (\<lambda>i b. set_row_char i 0 NUL b) [0..<LCD_NUM_ROWS] page_buffer"

text \<open>The loop at the top of each cycle of \<open>display_task\<close>, which empties every row.\<close>

definition clear_buffer_rows :: "page_buffer_t \<Rightarrow> page_buffer_t" where
  "clear_buffer_rows buffer = fold (\<lambda>i b. set_row_char i 0 NUL b) [0..<LCD_NUM_ROWS] buffer"

text \<open>
  \<open>_extend_page_buffer_rows\<close>: the inner loop writes spaces from the end of the string
  up to the visible width, then the row is terminated at the visible width.
\<close>

definition extend_row :: "nat \<Rightarrow> page_buffer_t \<Rightarrow> page_buffer_t" where
  "extend_row i buffer =
     set_row_char i LCD_NUM_VISIBLE_COLUMNS NUL
       (fold (\<lambda>j b. set_row_char i j (CHR '' '') b)
          [strlen (row buffer ! i)..<LCD_NUM_VISIBLE_COLUMNS] buffer)"

definition extend_page_buffer_rows :: "page_buffer_t \<Rightarrow> page_buffer_t" where
  "extend_page_buffer_rows buffer = fold extend_row [0..<LCD_NUM_ROWS] buffer"

subsection \<open>The page registry and dispatch\<close>

text \<open>The sixteen page handlers, as the function pointers stored in the registry.\<close>

datatype page_handler_t =
    Fn_handle_page_blank
  | Fn_handle_page_main
  | Fn_handle_page_sensors_temp
  | Fn_handle_page_sensors_temp2
  | Fn_handle_page_sensors_light
  | Fn_handle_page_sensors_flow
  | Fn_handle_page_power
  | Fn_handle_page_switches
  | Fn_handle_page_pump_status
  | Fn_handle_page_cp_control
  | Fn_handle_page_pp_control
  | Fn_handle_page_alarm
  | Fn_handle_page_wifi_status
  | Fn_handle_page_mqtt_status
  | Fn_handle_page_resource_status
  | Fn_handle_page_avr_status

text \<open>The two static flags whose addresses the registry hands to handlers.\<close>

datatype state_cell = Main_activity | Blink_arrow

text \<open>
  A registry entry; \<open>None\<close> is the null pointer. The field \<open>id\<close> of the C struct is
  \<open>spec_id\<close> here.
\<close>

record page_spec_t =
  spec_id :: display_page_id_t
  spec_handler :: "page_handler_t option"
  spec_state :: "state_cell option"

definition page_spec :: "display_page_id_t \<Rightarrow> page_handler_t \<Rightarrow> state_cell option \<Rightarrow> page_spec_t" where
  "page_spec i h st = \<lparr>spec_id = i, spec_handler = Some h, spec_state = st\<rparr>"

definition page_specs :: "page_spec_t list" where
  "page_specs = [
     page_spec DISPLAY_PAGE_BLANK Fn_handle_page_blank None,
     page_spec DISPLAY_PAGE_MAIN Fn_handle_page_main (Some Main_activity),
     page_spec DISPLAY_PAGE_SENSORS_TEMP Fn_handle_page_sensors_temp (Some Blink_arrow),
     page_spec DISPLAY_PAGE_SENSORS_TEMP_2 Fn_handle_page_sensors_temp2 (Some Blink_arrow),
     page_spec DISPLAY_PAGE_SENSORS_LIGHT Fn_handle_page_sensors_light None,
     page_spec DISPLAY_PAGE_SENSORS_FLOW Fn_handle_page_sensors_flow None,
     page_spec DISPLAY_PAGE_POWER Fn_handle_page_power None,
     page_spec DISPLAY_PAGE_SWITCHES Fn_handle_page_switches None,
     page_spec DISPLAY_PAGE_PUMP_STATUS Fn_handle_page_pump_status None,
     page_spec DISPLAY_PAGE_CP_CONTROL Fn_handle_page_cp_control None,
     page_spec DISPLAY_PAGE_PP_CONTROL Fn_handle_page_pp_control None,
     page_spec DISPLAY_PAGE_ALARM Fn_handle_page_alarm None,
     page_spec DISPLAY_PAGE_WIFI_STATUS Fn_handle_page_wifi_status None,
     page_spec DISPLAY_PAGE_MQTT_STATUS Fn_handle_page_mqtt_status None,
     page_spec DISPLAY_PAGE_RESOURCE_STATUS Fn_handle_page_resource_status None,
     page_spec DISPLAY_PAGE_AVR_STATUS Fn_handle_page_avr_status None]"

text \<open>
  A call through a handler pointer. The blank handler is the function above. The other
  handlers format datastore values into the rows and flip their flag; they are the
  parameter \<open>render\<close>, which works on the buffer and on the rest of the program state
  \<open>'w\<close> (datastore, flags, LED).
\<close>

definition call_handler ::
  "(page_handler_t \<Rightarrow> state_cell option \<Rightarrow> page_buffer_t \<Rightarrow> 'w \<Rightarrow> page_buffer_t \<times> 'w)
     \<Rightarrow> page_handler_t \<Rightarrow> state_cell option \<Rightarrow> page_buffer_t \<Rightarrow> 'w \<Rightarrow> page_buffer_t \<times> 'w" where
  "call_handler render h st buffer w =
     (if h = Fn_handle_page_blank then (handle_page_blank buffer, w) else render h st buffer w)"

datatype display_abort = Assertion_failed

text \<open>
  \<open>dispatch_to_handler\<close>, over the registry \<open>specs\<close> (the program passes \<open>page_specs\<close>).
  A failed \<open>assert\<close> aborts the program: the result \<open>Inl\<close>. Otherwise the result is the
  buffer, the rest of the state and the errors logged. The assignments of
  \<open>DISPLAY_PAGE_BLANK\<close> to the by-value parameter \<open>current_page\<close> in the three error
  branches have no effect outside the function and call no handler.
\<close>

definition dispatch_to_handler ::
  "(page_handler_t \<Rightarrow> state_cell option \<Rightarrow> page_buffer_t \<Rightarrow> 'w \<Rightarrow> page_buffer_t \<times> 'w)
     \<Rightarrow> page_spec_t list \<Rightarrow> page_buffer_t \<Rightarrow> display_page_id_t \<Rightarrow> 'w
     \<Rightarrow> display_abort + (page_buffer_t \<times> 'w \<times> log_entry list)" where
  "dispatch_to_handler render specs buffer current_page w =
     (if int (length specs) \<noteq> DISPLAY_PAGE_LAST then Inl Assertion_failed
      else if current_page \<ge> 0 \<and> current_page < DISPLAY_PAGE_LAST then
        (if spec_id (specs ! nat current_page) = current_page then
           (case spec_handler (specs ! nat current_page) of
              Some h \<Rightarrow>
                (case call_handler render h (spec_state (specs ! nat current_page)) buffer w of
                   (buffer', w') \<Rightarrow> Inr (buffer', w', []))
            | None \<Rightarrow> Inr (buffer, w, [LOGE_no_handler current_page]))
         else Inr (buffer, w, [LOGE_spec_mismatch current_page]))
      else Inr (buffer, w, [LOGE_out_of_range current_page]))"

subsection \<open>The output layer\<close>

text \<open>
  \<open>esp_err_t\<close> with the two codes of the ESP-IDF header esp\_err.h that the wrappers name.
\<close>

type_synonym esp_err_t = int

definition ESP_OK :: esp_err_t where "ESP_OK = 0"
definition ESP_FAIL :: esp_err_t where "ESP_FAIL = - 1"

text \<open>
  The display driver (i2c-lcd1602) is an external component. Each of its operations acts
  on the state \<open>'d\<close> of the device and the bus and returns an error code.
\<close>

record 'd lcd_driver =
  i2c_lcd1602_reset :: "'d \<Rightarrow> esp_err_t \<times> 'd"
  i2c_lcd1602_define_char :: "nat \<Rightarrow> 8 word list \<Rightarrow> 'd \<Rightarrow> esp_err_t \<times> 'd"
  i2c_lcd1602_clear :: "'d \<Rightarrow> esp_err_t \<times> 'd"
  i2c_lcd1602_move_cursor :: "8 word \<Rightarrow> 8 word \<Rightarrow> 'd \<Rightarrow> esp_err_t \<times> 'd"
  i2c_lcd1602_write_string :: "string \<Rightarrow> 'd \<Rightarrow> esp_err_t \<times> 'd"

text \<open>What the output layer does, in order: driver calls, delays and warnings.\<close>

datatype lcd_event =
    Ev_reset
  | Ev_define_char nat
  | Ev_clear
  | Ev_move_cursor "8 word" "8 word"
  | Ev_write_string string
  | Ev_delay nat
  | Ev_log_retry string int

record 'd lcd_io =
  lcd_dev :: 'd
  lcd_trace :: "lcd_event list"

definition lcd_note :: "lcd_event \<Rightarrow> 'd lcd_io \<Rightarrow> 'd lcd_io" where
  "lcd_note ev s = s\<lparr>lcd_trace := lcd_trace s @ [ev]\<rparr>"

text \<open>A driver call: the device state changes and the call is recorded.\<close>

definition lcd_call :: "lcd_event \<Rightarrow> ('d \<Rightarrow> esp_err_t \<times> 'd) \<Rightarrow> 'd lcd_io \<Rightarrow> esp_err_t \<times> 'd lcd_io" where
  "lcd_call ev op s =
     (case op (lcd_dev s) of (err, d) \<Rightarrow> (err, lcd_note ev (s\<lparr>lcd_dev := d\<rparr>)))"

definition degrees_C :: "8 word list" where
  "degrees_C = [0x10, 0x06, 0x09, 0x08, 0x08, 0x09, 0x06, 0x00]"
definition arrow_down :: "8 word list" where
  "arrow_down = [0x00, 0x1F, 0x1F, 0x0E, 0x0E, 0x04, 0x04, 0x00]"
definition arrow_up :: "8 word list" where
  "arrow_up = [0x00, 0x04, 0x04, 0x0E, 0x0E, 0x1F, 0x1F, 0x00]"
definition delta_glyph :: "8 word list" where
  "delta_glyph = [0x00, 0x01, 0x03, 0x05, 0x09, 0x11, 0x1F, 0x00]"

text \<open>
  \<open>_display_reset\<close>: reset the device, then define the four custom characters (indices
  \<open>I2C_LCD1602_INDEX_CUSTOM_0\<close> to \<open>3\<close>), each step only while no error has occurred.
\<close>

definition define_char_if_ok ::
  "'d lcd_driver \<Rightarrow> nat \<Rightarrow> 8 word list \<Rightarrow> esp_err_t \<times> 'd lcd_io \<Rightarrow> esp_err_t \<times> 'd lcd_io" where
  "define_char_if_ok drv idx glyph r =
     (case r of (err, s) \<Rightarrow>
        if err = ESP_OK then lcd_call (Ev_define_char idx) (i2c_lcd1602_define_char drv idx glyph) s
        else (err, s))"

definition display_reset :: "'d lcd_driver \<Rightarrow> 'd lcd_io \<Rightarrow> esp_err_t \<times> 'd lcd_io" where
  "display_reset drv s =
     define_char_if_ok drv 3 delta_glyph
       (define_char_if_ok drv 2 arrow_up
          (define_char_if_ok drv 1 arrow_down
             (define_char_if_ok drv 0 degrees_C
                (lcd_call Ev_reset (i2c_lcd1602_reset drv) s))))"

text \<open>
  The loop shared, word for word, by \<open>_clear\<close>, \<open>_move_cursor\<close> and \<open>_write_string\<close>:
  \<open>while (count < 10 && (err = op(...)) != ESP_OK) { ++count; ... }\<close> followed by
  \<open>return err\<close>. The body after the increment is \<open>recover\<close>, given the new count.
\<close>

function retry_loop ::
  "('s \<Rightarrow> esp_err_t \<times> 's) \<Rightarrow> (int \<Rightarrow> 's \<Rightarrow> 's) \<Rightarrow> int \<Rightarrow> esp_err_t \<Rightarrow> 's \<Rightarrow> esp_err_t \<times> 's" where
  "retry_loop op recover count err s =
     (if count < 10 then
        (case op s of (err', s') \<Rightarrow>
           if err' \<noteq> ESP_OK then retry_loop op recover (count + 1) err' (recover (count + 1) s')
           else (err', s'))
      else (err, s))"
  by pat_completeness auto
termination
  by (relation "measure (\<lambda>(op, recover, count, err, s). nat (10 - count))") auto

declare retry_loop.simps [simp del]

text \<open>
  The body of the loop after \<open>++count\<close>: a delay of 10 ms, \<open>_display_reset\<close> (its result
  is dropped) and the warning that names the wrapper.
\<close>

definition retry_recover :: "'d lcd_driver \<Rightarrow> string \<Rightarrow> int \<Rightarrow> 'd lcd_io \<Rightarrow> 'd lcd_io" where
  "retry_recover drv name count s =
     lcd_note (Ev_log_retry name count) (snd (display_reset drv (lcd_note (Ev_delay 10) s)))"

text \<open>The wrappers \<open>_clear\<close>, \<open>_move_cursor\<close> and \<open>_write_string\<close>.\<close>

definition clear :: "'d lcd_driver \<Rightarrow> 'd lcd_io \<Rightarrow> esp_err_t \<times> 'd lcd_io" where
  "clear drv s =
     retry_loop (lcd_call Ev_clear (i2c_lcd1602_clear drv)) (retry_recover drv ''_clear'')
       0 ESP_FAIL s"

definition move_cursor :: "'d lcd_driver \<Rightarrow> 8 word \<Rightarrow> 8 word \<Rightarrow> 'd lcd_io \<Rightarrow> esp_err_t \<times> 'd lcd_io" where
  "move_cursor drv col rw s =
     retry_loop (lcd_call (Ev_move_cursor col rw) (i2c_lcd1602_move_cursor drv col rw))
       (retry_recover drv ''_move_cursor'') 0 ESP_FAIL s"

definition write_string :: "'d lcd_driver \<Rightarrow> string \<Rightarrow> 'd lcd_io \<Rightarrow> esp_err_t \<times> 'd lcd_io" where
  "write_string drv str s =
     retry_loop (lcd_call (Ev_write_string str) (i2c_lcd1602_write_string drv str))
       (retry_recover drv ''_write_string'') 0 ESP_FAIL s"

text \<open>Counting in a trace: attempts of the wrapped operations, and device resets.\<close>

fun is_attempt :: "lcd_event \<Rightarrow> bool" where
  "is_attempt Ev_clear = True"
| "is_attempt (Ev_move_cursor c r) = True"
| "is_attempt (Ev_write_string str) = True"
| "is_attempt ev = False"

definition attempts :: "lcd_event list \<Rightarrow> nat" where
  "attempts tr = length (filter is_attempt tr)"

definition resets :: "lcd_event list \<Rightarrow> nat" where
  "resets tr = length (filter (\<lambda>ev. ev = Ev_reset) tr)"

subsection \<open>The display loop\<close>

text \<open>
  The locals of \<open>display_task\<close> that live across cycles, and what one cycle receives
  from outside: the result of \<open>xQueueReceive\<close> (\<open>None\<close> on timeout), the configured
  backlight timeout, and the two readings of \<open>seconds_since_boot\<close>.
\<close>

record display_vars =
  current_page :: display_page_id_t
  backlight_timestamp :: uint32_t

record display_inputs =
  queue_receive :: "input_t option"
  seconds_at_input :: uint32_t
  display_backlight_timeout :: uint32_t
  seconds_at_timeout :: uint32_t

text \<open>The calls a cycle makes, in order; the page arguments are kept.\<close>

datatype display_call =
    Call_dispatch_to_handler display_page_id_t
  | Call_extend_page_buffer_rows
  | Call_render_page_buffer
  | Call_set_backlight bool
  | Call_datastore_set_display_page display_page_id_t
  | Call_display_reset
  | Call_clear
  | Call_dump_datastore

text \<open>The branch taken when an input event was received.\<close>

definition display_on_input :: "input_t \<Rightarrow> uint32_t \<Rightarrow> display_vars \<Rightarrow> display_vars \<times> display_call list" where
  "display_on_input input now v =
     (let v1 = v\<lparr>backlight_timestamp := now\<rparr>;
          new_page = handle_transition input (current_page v1);
          (v2, calls) =
            (if new_page \<noteq> current_page v1 \<and> new_page \<ge> 0 \<and> new_page < DISPLAY_PAGE_LAST then
               (v1\<lparr>current_page := new_page\<rparr>,
                Call_datastore_set_display_page new_page #
                  (if new_page = DISPLAY_PAGE_MAIN then [Call_display_reset, Call_clear] else []))
             else (v1, []))
      in (v2, Call_set_backlight True # calls @
                (if current_page v2 = DISPLAY_PAGE_MAIN \<and> input = BUTTON_EVENT_SHORT
                 then [Call_dump_datastore] else [])))"

text \<open>One cycle of the loop of \<open>display_task\<close>.\<close>

definition display_task_step :: "display_inputs \<Rightarrow> display_vars \<Rightarrow> display_vars \<times> display_call list" where
  "display_task_step inp v =
     (let calls1 = [Call_dispatch_to_handler (current_page v), Call_extend_page_buffer_rows,
                    Call_render_page_buffer];
          (v', calls2) =
            (case queue_receive inp of
               Some input \<Rightarrow> display_on_input input (seconds_at_input inp) v
             | None \<Rightarrow> (v, []));
          backlight_timeout = display_backlight_timeout inp
      in (v', calls1 @ calls2 @
                (if backlight_timeout > 0 \<and> seconds_at_timeout inp - backlight_timestamp v' > backlight_timeout
                 then [Call_set_backlight False] else [])))"

fun display_task_loop :: "display_inputs list \<Rightarrow> display_vars \<Rightarrow> display_call list
     \<Rightarrow> display_vars \<times> display_call list" where
  "display_task_loop [] v calls = (v, calls)"
| "display_task_loop (inp # inps) v calls =
     (case display_task_step inp v of (v', out) \<Rightarrow> display_task_loop inps v' (calls @ out))"

text \<open>
  The task from the point where \<open>current_page\<close> is initialised; \<open>boot_seconds\<close> is the
  first reading of \<open>seconds_since_boot\<close>.
\<close>

definition display_task :: "uint32_t \<Rightarrow> display_inputs list \<Rightarrow> display_vars \<times> display_call list" where
  "display_task boot_seconds inps =
     display_task_loop inps \<lparr>current_page = INITIAL_PAGE, backlight_timestamp = boot_seconds\<rparr> []"

subsection \<open>Splitting a time\<close>

text \<open>\<open>_split_time\<close>: the four results are \<open>days\<close>, \<open>hours\<close>, \<open>minutes\<close>, \<open>seconds\<close>.\<close>

definition split_time :: "uint32_t \<Rightarrow> uint32_t \<times> uint32_t \<times> uint32_t \<times> uint32_t" where
  "split_time time =
     (time div 60 div 60 div 24, time div 60 div 60 mod 24, time div 60 mod 60, time mod 60)"

subsection \<open>Predicates and sample values for the statements below\<close>

text \<open>A page identifier inside the registry, and a transition target.\<close>

definition page_in_range :: "display_page_id_t \<Rightarrow> bool" where
  "page_in_range p \<longleftrightarrow> 0 \<le> p \<and> p < DISPLAY_PAGE_LAST"

definition page_or_ignore :: "display_page_id_t \<Rightarrow> bool" where
  "page_or_ignore p \<longleftrightarrow> p = DISPLAY_PAGE_IGNORE \<or> page_in_range p"

text \<open>Every dispatch recorded in a list of calls has a page inside the registry.\<close>

definition dispatches_in_range :: "display_call list \<Rightarrow> bool" where
  "dispatches_in_range calls \<longleftrightarrow>
     list_all (\<lambda>c. case c of Call_dispatch_to_handler p \<Rightarrow> page_in_range p | _ \<Rightarrow> True) calls"

text \<open>What the two loops of \<open>_extend_page_buffer_rows\<close> do to the bytes of one row.\<close>

definition padded :: "string \<Rightarrow> string" where
  "padded r = (fold (\<lambda>j r. r[j := CHR '' '']) [strlen r..<LCD_NUM_VISIBLE_COLUMNS] r)
                [LCD_NUM_VISIBLE_COLUMNS := NUL]"

text \<open>A display on which every driver operation fails, with no state of its own.\<close>

definition dead_display :: "unit lcd_driver" where
  "dead_display =
     \<lparr>i2c_lcd1602_reset = (\<lambda>d. (ESP_FAIL, d)),
      i2c_lcd1602_define_char = (\<lambda>idx glyph d. (ESP_FAIL, d)),
      i2c_lcd1602_clear = (\<lambda>d. (ESP_FAIL, d)),
      i2c_lcd1602_move_cursor = (\<lambda>col rw d. (ESP_FAIL, d)),
      i2c_lcd1602_write_string = (\<lambda>str d. (ESP_FAIL, d))\<rparr>"

text \<open>
  A buffer after rendering: a short row, an empty row, a row of full width, and a short
  row with bytes of an earlier cycle behind its terminator.
\<close>

definition rendered_buffer :: page_buffer_t where
  "rendered_buffer =
     \<lparr>row = [''AVR not detected'' @ replicate 25 NUL,
             replicate 41 NUL,
             ''Flow Rate  ---.- LPM'' @ replicate 21 NUL,
             ''Up'' @ [NUL] @ ''leftover'' @ replicate 30 NUL]\<rparr>"


section \<open>The circulation pump controller\<close>

text \<open>
  C1. Hysteresis step of the CP controller. In every pass: from OFF with
  \<open>T1 - T2 \<ge> on-delta\<close> the state becomes ON; from ON with \<open>T1 - T2 \<le> off-delta\<close> the
  state becomes OFF; and whenever \<open>T1 - T2\<close> lies strictly between off-delta and on-delta
  the state is unchanged and no pump call is made. The difference and the comparisons are
  those of the program's number type, any ordered type with a subtraction. Of the order
  the proof uses one law only, \<open>x < y \<longleftrightarrow> x \<le> y \<and> \<not> y \<le> x\<close>.
\<close>

theorem cp_hysteresis_step:
  fixes inp :: "('f::{minus,preorder}) cp_inputs"
  shows "(state = AVR_PUMP_STATE_OFF \<and> temp_value_0 inp - temp_value_1 inp \<ge> control_cp_on_delta inp
            \<longrightarrow> fst (control_cp_step inp state) = AVR_PUMP_STATE_ON)
       \<and> (state = AVR_PUMP_STATE_ON \<and> temp_value_0 inp - temp_value_1 inp \<le> control_cp_off_delta inp
            \<longrightarrow> fst (control_cp_step inp state) = AVR_PUMP_STATE_OFF)
       \<and> (control_cp_off_delta inp < temp_value_0 inp - temp_value_1 inp
            \<and> temp_value_0 inp - temp_value_1 inp < control_cp_on_delta inp
            \<longrightarrow> control_cp_step inp state = (state, []))"
  by (cases state)
     (auto simp: control_cp_step_def control_cp_transitions_def Let_def less_le_not_le)

theorem cp_hysteresis_step_witness:
  "(5::real) \<le> 30 - 24
   \<and> fst (control_cp_step \<lparr>temp_value_0 = 30, temp_value_1 = 24,
              control_cp_on_delta = 5::real, control_cp_off_delta = 2\<rparr> AVR_PUMP_STATE_OFF)
       = AVR_PUMP_STATE_ON
   \<and> (255 / 10 :: real) - 24 \<le> 2
   \<and> fst (control_cp_step \<lparr>temp_value_0 = 255 / 10, temp_value_1 = 24,
              control_cp_on_delta = 5::real, control_cp_off_delta = 2\<rparr> AVR_PUMP_STATE_ON)
       = AVR_PUMP_STATE_OFF
   \<and> (2::real) < 27 - 24 \<and> (27::real) - 24 < 5
   \<and> control_cp_step \<lparr>temp_value_0 = 27, temp_value_1 = 24,
         control_cp_on_delta = 5::real, control_cp_off_delta = 2\<rparr> AVR_PUMP_STATE_ON
       = (AVR_PUMP_STATE_ON, [])"
  using
    cp_hysteresis_step [of AVR_PUMP_STATE_OFF
      "\<lparr>temp_value_0 = 30, temp_value_1 = 24, control_cp_on_delta = 5::real, control_cp_off_delta = 2\<rparr>"]
    cp_hysteresis_step [of AVR_PUMP_STATE_ON
      "\<lparr>temp_value_0 = 255 / 10, temp_value_1 = 24, control_cp_on_delta = 5::real, control_cp_off_delta = 2\<rparr>"]
    cp_hysteresis_step [of AVR_PUMP_STATE_ON
      "\<lparr>temp_value_0 = 27, temp_value_1 = 24, control_cp_on_delta = 5::real, control_cp_off_delta = 2\<rparr>"]
  by simp

text \<open>
  The scenario of the specification: the difference 6.0 reaches the on-delta 5.0, stays
  above the off-delta 2.0, then falls to 1.5.
\<close>

lemma cp_scenario:
  "control_cp_task
     [\<lparr>temp_value_0 = 30, temp_value_1 = 24, control_cp_on_delta = 5::real, control_cp_off_delta = 0\<rparr>,
      \<lparr>temp_value_0 = 30, temp_value_1 = 24, control_cp_on_delta = 5, control_cp_off_delta = 2\<rparr>,
      \<lparr>temp_value_0 = 255 / 10, temp_value_1 = 24, control_cp_on_delta = 5, control_cp_off_delta = 2\<rparr>]
   = (AVR_PUMP_STATE_OFF, [AVR_PUMP_STATE_OFF, AVR_PUMP_STATE_ON, AVR_PUMP_STATE_OFF])"
  by (simp add: control_cp_task_def control_cp_step_def control_cp_transitions_def)

section \<open>The pool pump controller\<close>

lemma Suc_unat_minus_one: "x \<noteq> 0 \<Longrightarrow> Suc (unat (x - 1)) = unat x"
  for x :: "'a::len word"
  using unat_gt_0 [of x] by (simp add: unat_minus_one)

text \<open>
  However a run goes, if it comes back to OFF then the number of ON/PAUSE pairs made on
  the way is fixed by the counter \<open>n\<close>: in ON there are \<open>n + 1\<close> pairs to go, in PAUSE
  there are \<open>n\<close>.
\<close>

lemma pairs_until_off_count:
  "pairs_until_off to_ticks inps v = Some k \<Longrightarrow>
     k = (case pp_state v of
            STATE_PP_OFF \<Rightarrow> 0
          | STATE_PP_ON \<Rightarrow> Suc (unat (pp_n v))
          | STATE_PP_PAUSE \<Rightarrow> unat (pp_n v))"
proof (induction inps arbitrary: v k)
  case Nil
  then show ?case by (simp split: if_splits)
next
  case (Cons inp inps)
  show ?case
  proof (cases "pp_state v")
    case STATE_PP_OFF
    with Cons.prems show ?thesis by simp
  next
    case STATE_PP_ON
    with Cons.prems Cons.IH [of "fst (control_pp_step to_ticks inp v)"] show ?thesis
      by (auto simp: control_pp_step_def Let_def split: if_splits option.splits)
  next
    case STATE_PP_PAUSE
    with Cons.prems Cons.IH [of "fst (control_pp_step to_ticks inp v)"] show ?thesis
      by (auto simp: control_pp_step_def Let_def word_gt_0 Suc_unat_minus_one
            split: if_splits option.splits)
  qed
qed

text \<open>
  After the OFF to ON transition with cycle count \<open>N\<close>, a run that comes back to OFF has
  made \<open>N\<close> pairs when \<open>N\<close> is not zero, and \<open>2 ^ 32\<close> pairs when \<open>N\<close> is zero.
\<close>

lemma pairs_after_start:
  fixes inp :: "('f::ord) pp_inputs"
  assumes "pp_state v = STATE_PP_OFF"
    and "pp_state (fst (control_pp_step to_ticks inp v)) = STATE_PP_ON"
    and "pairs_until_off to_ticks inps (fst (control_pp_step to_ticks inp v)) = Some k"
  shows "k = Suc (unat (control_pp_cycle_count inp - 1))"
    and "control_pp_cycle_count inp \<noteq> 0 \<Longrightarrow> k = unat (control_pp_cycle_count inp)"
    and "control_pp_cycle_count inp = 0 \<Longrightarrow> k = 2 ^ 32"
proof -
  from assms(1,2) have n: "pp_n (fst (control_pp_step to_ticks inp v)) = control_pp_cycle_count inp - 1"
    by (auto simp: control_pp_step_def split: if_splits)
  from pairs_until_off_count [OF assms(3)] assms(2) n
  show k: "k = Suc (unat (control_pp_cycle_count inp - 1))" by simp
  show "k = unat (control_pp_cycle_count inp)" if "control_pp_cycle_count inp \<noteq> 0"
    using k that by (simp add: Suc_unat_minus_one)
  show "k = 2 ^ 32" if "control_pp_cycle_count inp = 0"
    using k that by (simp add: unsigned_minus_1_eq_mask mask_eq_exp_minus_1)
qed

text \<open>
  The scenario of the specification with a cycle count of two, at 100 ticks per second
  with durations of one second: ON with one cycle left, PAUSE, ON with none left, PAUSE,
  OFF.
\<close>

lemma pp_scenario:
  "map (\<lambda>(v, out). (pp_state v, pp_n v, out))
     (control_pp_loop (\<lambda>d::real. word_of_int \<lfloor>d * 100\<rfloor>)
        (map (\<lambda>t. \<lparr>last_wake_time = t, flow_rate = 2, pumps_cp_state = AVR_PUMP_STATE_ON,
                    control_flow_threshold = 5, control_pp_cycle_count = 2,
                    control_pp_cycle_on_duration = 1, control_pp_cycle_pause_duration = 1\<rparr>)
           [1000, 1100, 1200, 1300, 1400])
        pp_init)
   = [(STATE_PP_ON, 1, [AVR_PUMP_STATE_ON]),
      (STATE_PP_PAUSE, 1, [AVR_PUMP_STATE_OFF]),
      (STATE_PP_ON, 0, [AVR_PUMP_STATE_ON]),
      (STATE_PP_PAUSE, 0, [AVR_PUMP_STATE_OFF]),
      (STATE_PP_OFF, 0, [AVR_PUMP_STATE_OFF])]"
  by (simp add: control_pp_step_def pp_init_def Let_def word_gt_0)

text \<open>
  C2. Cycle accounting with a configured cycle count of zero. The tick rate is 100 Hz, both
  durations are one second, the circulation pump reads ON and the flow is under the
  threshold; the passes are one second apart. The OFF to ON transition loads zero and
  decrements it, which wraps to \<open>2 ^ 32 - 1\<close>: the controller goes through ON, PAUSE, ON,
  PAUSE and ON again, where zero pairs followed by OFF were called for.
\<close>

theorem pp_cycle_count_zero_run:
  "map (\<lambda>(v, out). (pp_state v, pp_n v, out))
     (control_pp_loop (\<lambda>d::real. word_of_int \<lfloor>d * 100\<rfloor>)
        (map (\<lambda>t. \<lparr>last_wake_time = t, flow_rate = 2, pumps_cp_state = AVR_PUMP_STATE_ON,
                    control_flow_threshold = 5, control_pp_cycle_count = 0,
                    control_pp_cycle_on_duration = 1, control_pp_cycle_pause_duration = 1\<rparr>)
           [1000, 1100, 1200, 1300, 1400])
        pp_init)
   = [(STATE_PP_ON, 4294967295, [AVR_PUMP_STATE_ON]),
      (STATE_PP_PAUSE, 4294967295, [AVR_PUMP_STATE_OFF]),
      (STATE_PP_ON, 4294967294, [AVR_PUMP_STATE_ON]),
      (STATE_PP_PAUSE, 4294967294, [AVR_PUMP_STATE_OFF]),
      (STATE_PP_ON, 4294967293, [AVR_PUMP_STATE_ON])]"
  by (simp add: control_pp_step_def pp_init_def Let_def word_gt_0)

text \<open>
  C6. The OFF to ON trigger of the PP controller. In a pass that starts in OFF the state
  becomes ON exactly when the CP state read from the datastore is ON and the flow rate is
  at most the threshold. On that transition the pump is set to ON (the only call), the
  cycle start is the wake time of the pass, and the counter is the configured cycle count
  minus one in 32-bit arithmetic. Otherwise nothing changes and no call is made.
\<close>

theorem pp_off_to_on_trigger:
  fixes inp :: "('f::ord) pp_inputs"
  assumes "pp_state v = STATE_PP_OFF"
  shows "(pp_state (fst (control_pp_step to_ticks inp v)) = STATE_PP_ON
            \<longleftrightarrow> pumps_cp_state inp = AVR_PUMP_STATE_ON \<and> flow_rate inp \<le> control_flow_threshold inp)
       \<and> (pumps_cp_state inp = AVR_PUMP_STATE_ON \<and> flow_rate inp \<le> control_flow_threshold inp \<longrightarrow>
            control_pp_step to_ticks inp v =
              (\<lparr>pp_state = STATE_PP_ON, pp_cycle_start_time = last_wake_time inp,
                pp_n = control_pp_cycle_count inp - 1\<rparr>, [AVR_PUMP_STATE_ON]))
       \<and> (\<not> (pumps_cp_state inp = AVR_PUMP_STATE_ON \<and> flow_rate inp \<le> control_flow_threshold inp) \<longrightarrow>
            control_pp_step to_ticks inp v = (v, []))"
  using assms by (simp add: control_pp_step_def)

theorem pp_off_to_on_trigger_witness:
  "pp_state pp_init = STATE_PP_OFF \<and> (2::real) \<le> 5
   \<and> control_pp_step (\<lambda>d. word_of_int \<lfloor>d * 100\<rfloor>)
        \<lparr>last_wake_time = 1000, flow_rate = 2::real, pumps_cp_state = AVR_PUMP_STATE_ON,
         control_flow_threshold = 5, control_pp_cycle_count = 2,
         control_pp_cycle_on_duration = 1, control_pp_cycle_pause_duration = 1\<rparr> pp_init
      = (\<lparr>pp_state = STATE_PP_ON, pp_cycle_start_time = 1000, pp_n = 1\<rparr>, [AVR_PUMP_STATE_ON])
   \<and> control_pp_step (\<lambda>d. word_of_int \<lfloor>d * 100\<rfloor>)
        \<lparr>last_wake_time = 1000, flow_rate = 7::real, pumps_cp_state = AVR_PUMP_STATE_ON,
         control_flow_threshold = 5, control_pp_cycle_count = 2,
         control_pp_cycle_on_duration = 1, control_pp_cycle_pause_duration = 1\<rparr> pp_init
      = (pp_init, [])"
  using
    pp_off_to_on_trigger [where v = pp_init and to_ticks = "\<lambda>d. word_of_int \<lfloor>d * 100\<rfloor>" and inp =
      "\<lparr>last_wake_time = 1000, flow_rate = 2::real, pumps_cp_state = AVR_PUMP_STATE_ON,
        control_flow_threshold = 5, control_pp_cycle_count = 2,
        control_pp_cycle_on_duration = 1, control_pp_cycle_pause_duration = 1\<rparr>"]
    pp_off_to_on_trigger [where v = pp_init and to_ticks = "\<lambda>d. word_of_int \<lfloor>d * 100\<rfloor>" and inp =
      "\<lparr>last_wake_time = 1000, flow_rate = 7::real, pumps_cp_state = AVR_PUMP_STATE_ON,
        control_flow_threshold = 5, control_pp_cycle_count = 2,
        control_pp_cycle_on_duration = 1, control_pp_cycle_pause_duration = 1\<rparr>"]
  by (simp add: pp_init_def)

section \<open>Actuation\<close>

text \<open>
  C4. Actuation only on transitions. In every pass of either controller a pump call is
  made if and only if the controller state after the pass differs from the state before
  it, and a pass makes at most one call.
\<close>

theorem actuation_only_on_transitions:
  fixes inp :: "('f::{minus,ord}) cp_inputs" and pinp :: "('g::ord) pp_inputs"
  shows "((snd (control_cp_step inp state) \<noteq> []) = (fst (control_cp_step inp state) \<noteq> state))
       \<and> length (snd (control_cp_step inp state)) \<le> 1
       \<and> ((snd (control_pp_step to_ticks pinp v) \<noteq> [])
            = (pp_state (fst (control_pp_step to_ticks pinp v)) \<noteq> pp_state v))
       \<and> length (snd (control_pp_step to_ticks pinp v)) \<le> 1"
proof -
  have cp: "((snd (control_cp_step inp state) \<noteq> []) = (fst (control_cp_step inp state) \<noteq> state))
       \<and> length (snd (control_cp_step inp state)) \<le> 1"
    by (cases state) (simp_all add: control_cp_step_def control_cp_transitions_def Let_def)
  have pp: "((snd (control_pp_step to_ticks pinp v) \<noteq> [])
            = (pp_state (fst (control_pp_step to_ticks pinp v)) \<noteq> pp_state v))
       \<and> length (snd (control_pp_step to_ticks pinp v)) \<le> 1"
    by (cases "pp_state v") (simp_all add: control_pp_step_def Let_def)
  from cp pp show ?thesis by simp
qed

section \<open>Navigation\<close>

lemmas display_page_ids =
  DISPLAY_PAGE_IGNORE_def DISPLAY_PAGE_BLANK_def DISPLAY_PAGE_MAIN_def DISPLAY_PAGE_SENSORS_TEMP_def
  DISPLAY_PAGE_SENSORS_TEMP_2_def DISPLAY_PAGE_SENSORS_LIGHT_def DISPLAY_PAGE_SENSORS_FLOW_def
  DISPLAY_PAGE_POWER_def DISPLAY_PAGE_SWITCHES_def DISPLAY_PAGE_PUMP_STATUS_def
  DISPLAY_PAGE_CP_CONTROL_def DISPLAY_PAGE_PP_CONTROL_def DISPLAY_PAGE_ALARM_def
  DISPLAY_PAGE_WIFI_STATUS_def DISPLAY_PAGE_MQTT_STATUS_def DISPLAY_PAGE_RESOURCE_STATUS_def
  DISPLAY_PAGE_AVR_STATUS_def DISPLAY_PAGE_LAST_def

lemma length_transitions: "int (length transitions) = DISPLAY_PAGE_LAST"
  by (simp add: transitions_def DISPLAY_PAGE_LAST_def)

lemma length_page_specs: "int (length page_specs) = DISPLAY_PAGE_LAST"
  by (simp add: page_specs_def DISPLAY_PAGE_LAST_def)

text \<open>Both tables list the pages in the order of their identifiers.\<close>

lemma spec_ids: "map spec_id page_specs = map int [0..<16]"
  by (simp add: page_specs_def page_spec_def display_page_ids upt_rec)

lemma transition_currents: "map current transitions = map int [0..<16]"
  by (simp add: transitions_def transition_row_def display_page_ids upt_rec)

lemma page_specs_handlers: "list_all (\<lambda>s. spec_handler s \<noteq> None) page_specs"
  by (simp add: page_specs_def page_spec_def)

lemma transitions_targets:
  "list_all (\<lambda>t. page_or_ignore (on_clockwise t) \<and> page_or_ignore (on_counter_clockwise t)
       \<and> page_or_ignore (on_short t) \<and> page_or_ignore (on_long t)) transitions"
  by (simp add: transitions_def transition_row_def display_page_ids page_or_ignore_def
        page_in_range_def)

lemma spec_id_cases:
  assumes "s \<in> set page_specs"
  shows "spec_id s \<in> {0, 1, 2, 3, 4, 5, 6, 7, 8, 9, 10, 11, 12, 13, 14, 15}"
proof -
  from assms have "spec_id s \<in> set (map spec_id page_specs)" by simp
  then show ?thesis unfolding spec_ids by (simp add: upt_rec)
qed

lemma transitions_entry:
  assumes "p \<in> {0, 1, 2, 3, 4, 5, 6, 7, 8, 9, 10, 11, 12, 13, 14, 15}"
  shows "current (transitions ! nat p) = p"
    and "length (filter (\<lambda>t. current t = p) transitions) = 1"
proof -
  have c: "current (transitions ! nat p) = map current transitions ! nat p"
    using assms by (intro nth_map [symmetric]) (auto simp: transitions_def)
  show "current (transitions ! nat p) = p"
    unfolding c transition_currents using assms by (auto simp: upt_rec)
  have "length (filter (\<lambda>t. current t = p) transitions)
          = length (filter (\<lambda>c. c = p) (map current transitions))"
    by (simp add: filter_map comp_def)
  also have "\<dots> = 1"
    unfolding transition_currents using assms by (auto simp: upt_rec)
  finally show "length (filter (\<lambda>t. current t = p) transitions) = 1" .
qed

text \<open>
  A lookup that yields the sentinel leaves the display on its page: the range check in
  \<open>display_task\<close> rejects the negative value.
\<close>

lemma ignore_keeps_page:
  "handle_transition input p = DISPLAY_PAGE_IGNORE \<Longrightarrow>
     current_page (fst (display_on_input input now \<lparr>current_page = p, backlight_timestamp = ts\<rparr>)) = p"
  by (simp add: display_on_input_def Let_def DISPLAY_PAGE_IGNORE_def)

text \<open>
  C5. Totality of the transition table. For every page of the registry: its identifier
  is an index into the transition table, the entry at that index is the entry of this
  page, and it is the only entry of this page. For each of the four input kinds the lookup
  yields a page of the registry or the ignore sentinel, and on the sentinel the display
  stays on the current page.
\<close>

theorem transition_table_total:
  "\<forall>s \<in> set page_specs.
     0 \<le> spec_id s \<and> nat (spec_id s) < length transitions
     \<and> current (transitions ! nat (spec_id s)) = spec_id s
     \<and> length (filter (\<lambda>t. current t = spec_id s) transitions) = 1
     \<and> (\<forall>input \<in> {ROTARY_ENCODER_EVENT_CLOCKWISE, ROTARY_ENCODER_EVENT_COUNTER_CLOCKWISE,
                     BUTTON_EVENT_SHORT, BUTTON_EVENT_LONG}.
           page_or_ignore (handle_transition input (spec_id s))
           \<and> (handle_transition input (spec_id s) = DISPLAY_PAGE_IGNORE \<longrightarrow>
                current_page (fst (display_on_input input now
                  \<lparr>current_page = spec_id s, backlight_timestamp = ts\<rparr>)) = spec_id s))"
proof
  fix s assume s: "s \<in> set page_specs"
  from spec_id_cases [OF s] have range: "0 \<le> spec_id s \<and> spec_id s < DISPLAY_PAGE_LAST"
    by (auto simp: DISPLAY_PAGE_LAST_def)
  then have idx: "nat (spec_id s) < length transitions" using length_transitions by linarith
  then have mem: "transitions ! nat (spec_id s) \<in> set transitions" by simp
  have tgt: "page_or_ignore (handle_transition input (spec_id s))"
    if "input \<in> {ROTARY_ENCODER_EVENT_CLOCKWISE, ROTARY_ENCODER_EVENT_COUNTER_CLOCKWISE,
                     BUTTON_EVENT_SHORT, BUTTON_EVENT_LONG}" for input
    using that range mem transitions_targets
    by (auto simp: handle_transition_def list_all_iff)
  show "0 \<le> spec_id s \<and> nat (spec_id s) < length transitions
     \<and> current (transitions ! nat (spec_id s)) = spec_id s
     \<and> length (filter (\<lambda>t. current t = spec_id s) transitions) = 1
     \<and> (\<forall>input \<in> {ROTARY_ENCODER_EVENT_CLOCKWISE, ROTARY_ENCODER_EVENT_COUNTER_CLOCKWISE,
                     BUTTON_EVENT_SHORT, BUTTON_EVENT_LONG}.
           page_or_ignore (handle_transition input (spec_id s))
           \<and> (handle_transition input (spec_id s) = DISPLAY_PAGE_IGNORE \<longrightarrow>
                current_page (fst (display_on_input input now
                  \<lparr>current_page = spec_id s, backlight_timestamp = ts\<rparr>)) = spec_id s))"
    using range idx transitions_entry [OF spec_id_cases [OF s]] tgt ignore_keeps_page
    by blast
qed

theorem transition_table_total_witness:
  "page_spec DISPLAY_PAGE_SENSORS_TEMP Fn_handle_page_sensors_temp (Some Blink_arrow) \<in> set page_specs
   \<and> BUTTON_EVENT_LONG \<in> {ROTARY_ENCODER_EVENT_CLOCKWISE, ROTARY_ENCODER_EVENT_COUNTER_CLOCKWISE,
                     BUTTON_EVENT_SHORT, BUTTON_EVENT_LONG}
   \<and> handle_transition BUTTON_EVENT_LONG DISPLAY_PAGE_SENSORS_TEMP = DISPLAY_PAGE_IGNORE
   \<and> current_page (fst (display_on_input BUTTON_EVENT_LONG 0
        \<lparr>current_page = DISPLAY_PAGE_SENSORS_TEMP, backlight_timestamp = 0\<rparr>))
       = DISPLAY_PAGE_SENSORS_TEMP
   \<and> page_or_ignore (handle_transition BUTTON_EVENT_SHORT DISPLAY_PAGE_SENSORS_TEMP)
   \<and> length (filter (\<lambda>t. current t = DISPLAY_PAGE_SENSORS_TEMP) transitions) = 1"
proof -
  have m: "page_spec DISPLAY_PAGE_SENSORS_TEMP Fn_handle_page_sensors_temp (Some Blink_arrow)
             \<in> set page_specs"
    by (simp add: page_specs_def)
  have l: "handle_transition BUTTON_EVENT_LONG DISPLAY_PAGE_SENSORS_TEMP = DISPLAY_PAGE_IGNORE"
    by (simp add: handle_transition_def transitions_def transition_row_def display_page_ids)
  from transition_table_total [where now = 0 and ts = 0, rule_format, OF m] l m show ?thesis
    by (simp add: page_spec_def)
qed

section \<open>The current page\<close>

lemma display_on_input_range:
  "page_in_range (current_page v) \<Longrightarrow>
     page_in_range (current_page (fst (display_on_input input now v)))"
  by (simp add: display_on_input_def Let_def page_in_range_def)

lemma display_on_input_calls:
  "dispatches_in_range (snd (display_on_input input now v))"
  by (simp add: display_on_input_def Let_def dispatches_in_range_def)

lemma display_task_step_range:
  assumes "page_in_range (current_page v)"
  shows "page_in_range (current_page (fst (display_task_step inp v)))"
    and "dispatches_in_range (snd (display_task_step inp v))"
proof -
  show "page_in_range (current_page (fst (display_task_step inp v)))"
    using assms display_on_input_range [of v]
    by (cases "queue_receive inp") (simp_all add: display_task_step_def Let_def split_beta)
  show "dispatches_in_range (snd (display_task_step inp v))"
    using assms display_on_input_calls [of _ _ v]
    by (cases "queue_receive inp")
       (simp_all add: display_task_step_def Let_def split_beta dispatches_in_range_def)
qed

lemma display_task_loop_range:
  "page_in_range (current_page v) \<Longrightarrow> dispatches_in_range calls \<Longrightarrow>
     page_in_range (current_page (fst (display_task_loop inps v calls)))
     \<and> dispatches_in_range (snd (display_task_loop inps v calls))"
proof (induction inps arbitrary: v calls)
  case Nil
  then show ?case by simp
next
  case (Cons inp inps)
  obtain v' out where step: "display_task_step inp v = (v', out)"
    by (cases "display_task_step inp v")
  from display_task_step_range [OF Cons.prems(1), of inp] step
  have "page_in_range (current_page v')" and "dispatches_in_range out" by simp_all
  moreover from this Cons.prems(2) have "dispatches_in_range (calls @ out)"
    by (simp add: dispatches_in_range_def)
  ultimately show ?case using Cons.IH [of v' "calls @ out"] step by simp
qed

text \<open>
  In range, the program's registry passes both checks of \<open>dispatch_to_handler\<close>: the
  error branches are never taken by \<open>display_task\<close>.
\<close>

lemma page_specs_consistent:
  assumes "page_in_range p"
  shows "spec_id (page_specs ! nat p) = p \<and> spec_handler (page_specs ! nat p) \<noteq> None"
proof -
  from assms have n: "nat p < length page_specs"
    using length_page_specs unfolding page_in_range_def by linarith
  then have "spec_id (page_specs ! nat p) = map spec_id page_specs ! nat p" by simp
  also have "\<dots> = p"
    unfolding spec_ids using n assms by (simp add: page_in_range_def page_specs_def)
  finally have "spec_id (page_specs ! nat p) = p" .
  moreover from n page_specs_handlers have "spec_handler (page_specs ! nat p) \<noteq> None"
    by (simp add: list_all_length)
  ultimately show ?thesis by simp
qed

text \<open>
  C9. Range of the current page. The current page starts as the home page. After any
  number of cycles, whatever the inputs, it is a valid index of the registry, and every
  dispatch made by the loop was given a page inside the range.
\<close>

theorem current_page_in_range:
  "current_page (fst (display_task boot_seconds [])) = DISPLAY_PAGE_MAIN
   \<and> 0 \<le> current_page (fst (display_task boot_seconds inps))
   \<and> current_page (fst (display_task boot_seconds inps)) < DISPLAY_PAGE_LAST
   \<and> (\<forall>p. Call_dispatch_to_handler p \<in> set (snd (display_task boot_seconds inps))
          \<longrightarrow> 0 \<le> p \<and> p < DISPLAY_PAGE_LAST)"
proof -
  have init: "page_in_range INITIAL_PAGE"
    by (simp add: page_in_range_def INITIAL_PAGE_def display_page_ids)
  have "page_in_range (current_page (fst (display_task boot_seconds inps)))
      \<and> dispatches_in_range (snd (display_task boot_seconds inps))"
    unfolding display_task_def
    by (rule display_task_loop_range) (simp_all add: init dispatches_in_range_def)
  then have 1: "page_in_range (current_page (fst (display_task boot_seconds inps)))"
    and 2: "\<And>p. Call_dispatch_to_handler p \<in> set (snd (display_task boot_seconds inps))
              \<Longrightarrow> page_in_range p"
    by (auto simp: dispatches_in_range_def list_all_iff)
  have 0: "current_page (fst (display_task boot_seconds [])) = DISPLAY_PAGE_MAIN"
    by (simp add: display_task_def INITIAL_PAGE_def)
  from 0 1 2 show ?thesis unfolding page_in_range_def by blast
qed

theorem current_page_in_range_witness:
  "Call_dispatch_to_handler DISPLAY_PAGE_AVR_STATUS \<in> set (snd (display_task 0
      [\<lparr>queue_receive = Some ROTARY_ENCODER_EVENT_COUNTER_CLOCKWISE, seconds_at_input = 5,
        display_backlight_timeout = 0, seconds_at_timeout = 5\<rparr>,
       \<lparr>queue_receive = None, seconds_at_input = 5,
        display_backlight_timeout = 0, seconds_at_timeout = 5\<rparr>]))
   \<and> 0 \<le> DISPLAY_PAGE_AVR_STATUS \<and> DISPLAY_PAGE_AVR_STATUS < DISPLAY_PAGE_LAST"
proof -
  have m: "Call_dispatch_to_handler DISPLAY_PAGE_AVR_STATUS \<in> set (snd (display_task 0
      [\<lparr>queue_receive = Some ROTARY_ENCODER_EVENT_COUNTER_CLOCKWISE, seconds_at_input = 5,
        display_backlight_timeout = 0, seconds_at_timeout = 5\<rparr>,
       \<lparr>queue_receive = None, seconds_at_input = 5,
        display_backlight_timeout = 0, seconds_at_timeout = 5\<rparr>]))"
    by (simp add: display_task_def display_task_step_def display_on_input_def Let_def
          handle_transition_def transitions_def transition_row_def INITIAL_PAGE_def display_page_ids)
  from current_page_in_range [of 0
      "[\<lparr>queue_receive = Some ROTARY_ENCODER_EVENT_COUNTER_CLOCKWISE, seconds_at_input = 5,
        display_backlight_timeout = 0, seconds_at_timeout = 5\<rparr>,
       \<lparr>queue_receive = None, seconds_at_input = 5,
        display_backlight_timeout = 0, seconds_at_timeout = 5\<rparr>]"] m
  show ?thesis by blast
qed

section \<open>The output layer\<close>

lemma lcd_call_trace: "lcd_trace (snd (lcd_call ev op s)) = lcd_trace s @ [ev]"
  by (simp add: lcd_call_def lcd_note_def split_beta)

lemma attempts_snoc:
  "attempts (tr @ [ev]) = (if is_attempt ev then Suc (attempts tr) else attempts tr)"
  by (simp add: attempts_def)

lemma resets_snoc:
  "resets (tr @ [ev]) = (if ev = Ev_reset then Suc (resets tr) else resets tr)"
  by (simp add: resets_def)

lemma define_char_if_ok_counts:
  "attempts (lcd_trace (snd (define_char_if_ok drv idx glyph r))) = attempts (lcd_trace (snd r))"
  "resets (lcd_trace (snd (define_char_if_ok drv idx glyph r))) = resets (lcd_trace (snd r))"
  by (simp_all add: define_char_if_ok_def split_beta lcd_call_trace attempts_snoc resets_snoc)

text \<open>A display reset is one device reset and no attempt of a wrapped operation.\<close>

lemma display_reset_counts:
  "attempts (lcd_trace (snd (display_reset drv s))) = attempts (lcd_trace s)"
  "resets (lcd_trace (snd (display_reset drv s))) = Suc (resets (lcd_trace s))"
  by (simp_all add: display_reset_def define_char_if_ok_counts lcd_call_trace
        attempts_snoc resets_snoc)

lemma retry_recover_counts:
  "attempts (lcd_trace (retry_recover drv name count s)) = attempts (lcd_trace s)"
  "resets (lcd_trace (retry_recover drv name count s)) = Suc (resets (lcd_trace s))"
  by (simp_all add: retry_recover_def lcd_note_def display_reset_counts attempts_snoc resets_snoc)

text \<open>
  The loop with an operation that fails in every state. \<open>A\<close> counts attempts and \<open>R\<close>
  counts resets; from \<open>count\<close> the loop makes the \<open>10 - count\<close> attempts that are left,
  each followed by one recovery, and hands back a failure.
\<close>

lemma retry_loop_always_fails:
  assumes fail: "\<And>s. fst (op s) \<noteq> ESP_OK"
    and op_a: "\<And>s. A (snd (op s)) = Suc (A s)"
    and op_r: "\<And>s. R (snd (op s)) = R s"
    and rec_a: "\<And>c s. A (recover c s) = A s"
    and rec_r: "\<And>c s. R (recover c s) = Suc (R s)"
  shows "nat (10 - count) = k \<Longrightarrow>
           A (snd (retry_loop op recover count err s)) = A s + k
         \<and> R (snd (retry_loop op recover count err s)) = R s + k
         \<and> (0 < k \<longrightarrow> fst (retry_loop op recover count err s) \<noteq> ESP_OK)"
proof (induction k arbitrary: count err s)
  case 0
  then have "\<not> count < 10" by simp
  then have stop: "retry_loop op recover count err s = (err, s)"
    by (subst retry_loop.simps) simp
  show ?case unfolding stop by simp
next
  case (Suc k)
  then have lt: "count < 10" and k: "nat (10 - (count + 1)) = k" by simp_all
  obtain e s1 where o: "op s = (e, s1)" by (cases "op s")
  with fail [of s] have e: "e \<noteq> ESP_OK" by simp
  from o op_a [of s] op_r [of s] have s1: "A s1 = Suc (A s)" "R s1 = R s" by simp_all
  have unfold: "retry_loop op recover count err s
                  = retry_loop op recover (count + 1) e (recover (count + 1) s1)"
    by (subst retry_loop.simps) (simp add: lt o e)
  from Suc.IH [OF k, of e "recover (count + 1) s1"]
  have ih: "A (snd (retry_loop op recover (count + 1) e (recover (count + 1) s1))) = A s1 + k"
       "R (snd (retry_loop op recover (count + 1) e (recover (count + 1) s1))) = Suc (R s1) + k"
       "0 < k \<longrightarrow> fst (retry_loop op recover (count + 1) e (recover (count + 1) s1)) \<noteq> ESP_OK"
    by (simp_all add: rec_a rec_r)
  have last: "fst (retry_loop op recover (count + 1) e (recover (count + 1) s1)) \<noteq> ESP_OK"
  proof (cases "0 < k")
    case True
    with ih(3) show ?thesis by simp
  next
    case False
    with k have "\<not> count + 1 < 10" by simp
    then have "retry_loop op recover (count + 1) e (recover (count + 1) s1)
                 = (e, recover (count + 1) s1)"
      by (subst retry_loop.simps) simp
    then show ?thesis by (simp add: e)
  qed
  show ?case by (simp only: unfold ih(1,2) s1 last) simp
qed

lemma wrapper_always_fails:
  assumes "\<forall>d. fst (hw d) \<noteq> ESP_OK" and "is_attempt ev"
  shows "fst (retry_loop (lcd_call ev hw) (retry_recover drv name) 0 ESP_FAIL s) \<noteq> ESP_OK
       \<and> attempts (lcd_trace (snd (retry_loop (lcd_call ev hw) (retry_recover drv name) 0 ESP_FAIL s)))
            = attempts (lcd_trace s) + 10
       \<and> resets (lcd_trace (snd (retry_loop (lcd_call ev hw) (retry_recover drv name) 0 ESP_FAIL s)))
            = resets (lcd_trace s) + 10"
proof -
  have 1: "fst (lcd_call ev hw s) \<noteq> ESP_OK" for s :: "'a lcd_io"
    using assms(1) by (simp add: lcd_call_def split_beta)
  have 2: "attempts (lcd_trace (snd (lcd_call ev hw s))) = Suc (attempts (lcd_trace s))"
    for s :: "'a lcd_io"
    using assms(2) by (simp add: lcd_call_trace attempts_snoc)
  have 3: "resets (lcd_trace (snd (lcd_call ev hw s))) = resets (lcd_trace s)"
    for s :: "'a lcd_io"
    using assms(2) by (auto simp: lcd_call_trace resets_snoc)
  from retry_loop_always_fails [of "lcd_call ev hw" "\<lambda>s. attempts (lcd_trace s)"
      "\<lambda>s. resets (lcd_trace s)" "retry_recover drv name" 0 10 ESP_FAIL s,
      OF 1 2 3 retry_recover_counts]
  show ?thesis by simp
qed

text \<open>
  Whatever the driver does, a wrapper makes at most ten attempts: the attempts left from
  \<open>count\<close> are at most \<open>10 - count\<close>.
\<close>

lemma retry_loop_bounded:
  assumes op_a: "\<And>s. A (snd (op s)) = Suc (A s)"
    and rec_a: "\<And>c s. A (recover c s) = A s"
  shows "nat (10 - count) = k \<Longrightarrow> A (snd (retry_loop op recover count err s)) \<le> A s + k"
proof (induction k arbitrary: count err s)
  case 0
  then have "\<not> count < 10" by simp
  then have stop: "retry_loop op recover count err s = (err, s)"
    by (subst retry_loop.simps) simp
  show ?case unfolding stop by simp
next
  case (Suc k)
  then have lt: "count < 10" and k: "nat (10 - (count + 1)) = k" by simp_all
  obtain e s1 where o: "op s = (e, s1)" by (cases "op s")
  from o op_a [of s] have s1: "A s1 = Suc (A s)" by simp
  show ?case
  proof (cases "e = ESP_OK")
    case True
    then have "retry_loop op recover count err s = (e, s1)"
      by (subst retry_loop.simps) (simp add: lt o)
    then show ?thesis by (simp add: s1)
  next
    case False
    then have "retry_loop op recover count err s
                 = retry_loop op recover (count + 1) e (recover (count + 1) s1)"
      by (subst retry_loop.simps) (simp add: lt o)
    with Suc.IH [OF k, of e "recover (count + 1) s1"] show ?thesis
      by (simp add: rec_a s1)
  qed
qed

lemma wrapper_attempts_bounded:
  assumes "is_attempt ev"
  shows "attempts (lcd_trace (snd (retry_loop (lcd_call ev hw) (retry_recover drv name) 0 ESP_FAIL s)))
           \<le> attempts (lcd_trace s) + 10"
proof -
  have 2: "attempts (lcd_trace (snd (lcd_call ev hw s))) = Suc (attempts (lcd_trace s))"
    for s :: "'a lcd_io"
    using assms by (simp add: lcd_call_trace attempts_snoc)
  from retry_loop_bounded [of "\<lambda>s. attempts (lcd_trace s)" "lcd_call ev hw"
      "retry_recover drv name" 0 10 ESP_FAIL s, OF 2 retry_recover_counts(1)]
  show ?thesis by simp
qed

text \<open>
  C3. Bounded retry of display writes. For each of the three wrappers: when the driver
  operation it wraps fails in every state of the device, the wrapper returns (the loop
  is a total function, by its termination proof), its result is a failure, and it has
  made exactly ten attempts of the operation and exactly ten device resets.
\<close>

theorem display_write_bounded_retry:
  "((\<forall>d. fst (i2c_lcd1602_clear drv d) \<noteq> ESP_OK) \<longrightarrow>
      fst (clear drv s) \<noteq> ESP_OK
      \<and> attempts (lcd_trace (snd (clear drv s))) = attempts (lcd_trace s) + 10
      \<and> resets (lcd_trace (snd (clear drv s))) = resets (lcd_trace s) + 10)
 \<and> ((\<forall>d. fst (i2c_lcd1602_move_cursor drv col rw d) \<noteq> ESP_OK) \<longrightarrow>
      fst (move_cursor drv col rw s) \<noteq> ESP_OK
      \<and> attempts (lcd_trace (snd (move_cursor drv col rw s))) = attempts (lcd_trace s) + 10
      \<and> resets (lcd_trace (snd (move_cursor drv col rw s))) = resets (lcd_trace s) + 10)
 \<and> ((\<forall>d. fst (i2c_lcd1602_write_string drv str d) \<noteq> ESP_OK) \<longrightarrow>
      fst (write_string drv str s) \<noteq> ESP_OK
      \<and> attempts (lcd_trace (snd (write_string drv str s))) = attempts (lcd_trace s) + 10
      \<and> resets (lcd_trace (snd (write_string drv str s))) = resets (lcd_trace s) + 10)"
  unfolding clear_def move_cursor_def write_string_def
  using wrapper_always_fails [of "i2c_lcd1602_clear drv" Ev_clear drv "''_clear''" s]
        wrapper_always_fails [of "i2c_lcd1602_move_cursor drv col rw" "Ev_move_cursor col rw"
          drv "''_move_cursor''" s]
        wrapper_always_fails [of "i2c_lcd1602_write_string drv str" "Ev_write_string str"
          drv "''_write_string''" s]
  by simp

theorem display_write_bounded_retry_witness:
  "(\<forall>d. fst (i2c_lcd1602_clear dead_display d) \<noteq> ESP_OK)
   \<and> (\<forall>d. fst (i2c_lcd1602_move_cursor dead_display 0 1 d) \<noteq> ESP_OK)
   \<and> (\<forall>d. fst (i2c_lcd1602_write_string dead_display ''Hello'' d) \<noteq> ESP_OK)
   \<and> fst (clear dead_display \<lparr>lcd_dev = (), lcd_trace = []\<rparr>) \<noteq> ESP_OK
   \<and> attempts (lcd_trace (snd (clear dead_display \<lparr>lcd_dev = (), lcd_trace = []\<rparr>))) = 10
   \<and> resets (lcd_trace (snd (clear dead_display \<lparr>lcd_dev = (), lcd_trace = []\<rparr>))) = 10
   \<and> fst (move_cursor dead_display 0 1 \<lparr>lcd_dev = (), lcd_trace = []\<rparr>) \<noteq> ESP_OK
   \<and> attempts (lcd_trace (snd (move_cursor dead_display 0 1 \<lparr>lcd_dev = (), lcd_trace = []\<rparr>))) = 10
   \<and> fst (write_string dead_display ''Hello'' \<lparr>lcd_dev = (), lcd_trace = []\<rparr>) \<noteq> ESP_OK
   \<and> attempts (lcd_trace
        (snd (write_string dead_display ''Hello'' \<lparr>lcd_dev = (), lcd_trace = []\<rparr>))) = 10"
  using display_write_bounded_retry
    [of dead_display "\<lparr>lcd_dev = (), lcd_trace = []\<rparr>" 0 1 "''Hello''"]
  by (simp add: dead_display_def ESP_FAIL_def ESP_OK_def attempts_def resets_def)

section \<open>The page buffer\<close>

lemma row_set_row_char: "row (set_row_char i j c b) = (row b)[i := (row b ! i)[j := c]]"
  by (simp add: set_row_char_def)

lemma fold_set_row_char:
  "i < length (row b) \<Longrightarrow>
     row (fold (\<lambda>j b. set_row_char i j c b) js b)
       = (row b)[i := fold (\<lambda>j r. r[j := c]) js (row b ! i)]"
  by (induction js arbitrary: b) (simp_all add: row_set_row_char)

lemma length_fold_update: "length (fold (\<lambda>j r. r[j := c]) js r) = length r"
  by (induction js arbitrary: r) simp_all

lemma nth_fold_update:
  "k < length r \<Longrightarrow> fold (\<lambda>j r. r[j := c]) js r ! k = (if k \<in> set js then c else r ! k)"
  by (induction js arbitrary: r) (auto simp: nth_list_update)

lemma row_extend_row:
  "i < length (row b) \<Longrightarrow> row (extend_row i b) = (row b)[i := padded (row b ! i)]"
  by (simp add: extend_row_def row_set_row_char fold_set_row_char padded_def)

lemma length_padded: "length (padded r) = length r"
  by (simp add: padded_def length_fold_update)

text \<open>A loop over the rows that rewrites row \<open>i\<close> in pass \<open>i\<close> maps the rewriting over the rows.\<close>

lemma fold_rows:
  assumes "\<And>i b. i < length (row b) \<Longrightarrow> row (f i b) = (row b)[i := g (row b ! i)]"
  shows "n \<le> length (row b) \<Longrightarrow>
           row (fold f [0..<n] b) = map g (take n (row b)) @ drop n (row b)"
proof (induction n)
  case 0
  then show ?case by simp
next
  case (Suc n)
  then have n: "n < length (row b)" by simp
  let ?b = "fold f [0..<n] b"
  from Suc have ih: "row ?b = map g (take n (row b)) @ drop n (row b)" by simp
  then have len: "length (row ?b) = length (row b)" by simp
  have "row (fold f [0..<Suc n] b) = (row ?b)[n := g (row ?b ! n)]"
    using assms [of n ?b] n len by simp
  also have "\<dots> = map g (take (Suc n) (row b)) @ drop (Suc n) (row b)"
    using n unfolding ih
    by (simp add: list_update_append nth_append take_Suc_conv_app_nth
          Cons_nth_drop_Suc [symmetric])
  finally show ?case .
qed

lemma row_extend_page_buffer_rows:
  "length (row b) = LCD_NUM_ROWS \<Longrightarrow> row (extend_page_buffer_rows b) = map padded (row b)"
  unfolding extend_page_buffer_rows_def
  using fold_rows [of extend_row padded LCD_NUM_ROWS b, OF row_extend_row] by simp

lemma row_handle_page_blank:
  "length (row b) = LCD_NUM_ROWS \<Longrightarrow>
     row (handle_page_blank b) = map (\<lambda>r. r[0 := NUL]) (row b)"
  unfolding handle_page_blank_def
  using fold_rows [of "\<lambda>i b. set_row_char i 0 NUL b" "\<lambda>r. r[0 := NUL]" LCD_NUM_ROWS b]
  by (simp add: row_set_row_char)

lemma strlen_nth: "k < strlen r \<Longrightarrow> r ! k \<noteq> NUL"
  unfolding strlen_def using nth_length_takeWhile takeWhile_nth
  by (metis (mono_tags, lifting) nth_mem set_takeWhileD)

lemma strlen_c_str: "strlen r = length (c_str r)"
  by (simp add: strlen_def c_str_def)

lemma padded_nth:
  assumes "strlen r \<le> LCD_NUM_VISIBLE_COLUMNS" and "length r = LCD_NUM_COLUMNS + 1"
  shows "k < LCD_NUM_VISIBLE_COLUMNS \<Longrightarrow>
           padded r ! k = (if k < strlen r then r ! k else CHR '' '')"
    and "padded r ! LCD_NUM_VISIBLE_COLUMNS = NUL"
  using assms
  by (auto simp: padded_def nth_list_update length_fold_update nth_fold_update
        LCD_NUM_VISIBLE_COLUMNS_def LCD_NUM_COLUMNS_def)

lemma c_str_padded:
  assumes "strlen r \<le> LCD_NUM_VISIBLE_COLUMNS" and "length r = LCD_NUM_COLUMNS + 1"
  shows "c_str (padded r) = c_str r @ replicate (LCD_NUM_VISIBLE_COLUMNS - strlen r) (CHR '' '')"
proof -
  have len: "LCD_NUM_VISIBLE_COLUMNS < length (padded r)"
    using assms(2) by (simp add: length_padded LCD_NUM_VISIBLE_COLUMNS_def LCD_NUM_COLUMNS_def)
  have nonnul: "padded r ! k \<noteq> NUL" if "k < LCD_NUM_VISIBLE_COLUMNS" for k
    using padded_nth(1) [OF assms that] strlen_nth [of k r] by (auto simp: NUL_def)
  have "c_str (padded r) = take LCD_NUM_VISIBLE_COLUMNS (padded r)"
    unfolding c_str_def
    by (rule takeWhile_eq_take_P_nth) (use nonnul padded_nth(2) [OF assms] in auto)
  also have "\<dots> = c_str r @ replicate (LCD_NUM_VISIBLE_COLUMNS - strlen r) (CHR '' '')"
  proof (rule nth_equalityI)
    show "length (take LCD_NUM_VISIBLE_COLUMNS (padded r))
            = length (c_str r @ replicate (LCD_NUM_VISIBLE_COLUMNS - strlen r) (CHR '' ''))"
      using len assms(1) by (simp add: c_str_def strlen_def)
  next
    fix k assume "k < length (take LCD_NUM_VISIBLE_COLUMNS (padded r))"
    then have k: "k < LCD_NUM_VISIBLE_COLUMNS" by simp
    show "take LCD_NUM_VISIBLE_COLUMNS (padded r) ! k
            = (c_str r @ replicate (LCD_NUM_VISIBLE_COLUMNS - strlen r) (CHR '' '')) ! k"
      using k padded_nth(1) [OF assms k]
      by (auto simp: nth_append c_str_def strlen_def takeWhile_nth)
  qed
  finally show ?thesis .
qed

text \<open>
  C8. Row padding. Take a buffer as the task allocates it (four rows of
  \<open>LCD_NUM_COLUMNS + 1\<close> bytes) in which the string of every row is at most the visible
  width long. After \<open>_extend_page_buffer_rows\<close> there are still four rows, and in each
  row the string is the rendered string followed by spaces up to the visible width, is
  exactly \<open>LCD_NUM_VISIBLE_COLUMNS\<close> (20) characters long, and the byte at index 20 is
  the terminator.
\<close>

theorem extend_page_buffer_rows_pads:
  assumes "buffer_allocated b"
    and "\<forall>i < LCD_NUM_ROWS. strlen (row b ! i) \<le> LCD_NUM_VISIBLE_COLUMNS"
  shows "length (row (extend_page_buffer_rows b)) = LCD_NUM_ROWS
       \<and> (\<forall>i < LCD_NUM_ROWS.
            c_str (row (extend_page_buffer_rows b) ! i)
              = c_str (row b ! i)
                  @ replicate (LCD_NUM_VISIBLE_COLUMNS - strlen (row b ! i)) (CHR '' '')
          \<and> strlen (row (extend_page_buffer_rows b) ! i) = LCD_NUM_VISIBLE_COLUMNS
          \<and> row (extend_page_buffer_rows b) ! i ! LCD_NUM_VISIBLE_COLUMNS = NUL)"
proof -
  from assms(1) have len: "length (row b) = LCD_NUM_ROWS"
    and cap: "\<And>i. i < LCD_NUM_ROWS \<Longrightarrow> length (row b ! i) = LCD_NUM_COLUMNS + 1"
    by (simp_all add: buffer_allocated_def list_all_length)
  have rows: "row (extend_page_buffer_rows b) = map padded (row b)"
    by (rule row_extend_page_buffer_rows [OF len])
  have "c_str (row (extend_page_buffer_rows b) ! i)
              = c_str (row b ! i)
                  @ replicate (LCD_NUM_VISIBLE_COLUMNS - strlen (row b ! i)) (CHR '' '')
          \<and> strlen (row (extend_page_buffer_rows b) ! i) = LCD_NUM_VISIBLE_COLUMNS
          \<and> row (extend_page_buffer_rows b) ! i ! LCD_NUM_VISIBLE_COLUMNS = NUL"
    if i: "i < LCD_NUM_ROWS" for i
  proof -
    from i assms(2) have s: "strlen (row b ! i) \<le> LCD_NUM_VISIBLE_COLUMNS" by simp
    from i len have r: "row (extend_page_buffer_rows b) ! i = padded (row b ! i)"
      unfolding rows by simp
    from c_str_padded [OF s cap [OF i]] s padded_nth(2) [OF s cap [OF i]]
    show ?thesis unfolding r by (simp add: strlen_c_str)
  qed
  with rows len show ?thesis by simp
qed

theorem extend_page_buffer_rows_pads_witness:
  "buffer_allocated rendered_buffer
   \<and> strlen (row rendered_buffer ! 0) \<le> LCD_NUM_VISIBLE_COLUMNS
   \<and> strlen (row rendered_buffer ! 1) \<le> LCD_NUM_VISIBLE_COLUMNS
   \<and> strlen (row rendered_buffer ! 2) \<le> LCD_NUM_VISIBLE_COLUMNS
   \<and> strlen (row rendered_buffer ! 3) \<le> LCD_NUM_VISIBLE_COLUMNS
   \<and> map c_str (row (extend_page_buffer_rows rendered_buffer))
       = [''AVR not detected    '', ''                    '', ''Flow Rate  ---.- LPM'',
          ''Up                  '']"
proof -
  have a: "buffer_allocated rendered_buffer"
    by (simp add: rendered_buffer_def buffer_allocated_def LCD_NUM_ROWS_def LCD_NUM_COLUMNS_def)
  have s: "\<forall>i < LCD_NUM_ROWS. strlen (row rendered_buffer ! i) \<le> LCD_NUM_VISIBLE_COLUMNS"
    by (simp add: rendered_buffer_def LCD_NUM_ROWS_def LCD_NUM_VISIBLE_COLUMNS_def strlen_def
          NUL_def eval_nat_numeral All_less_Suc)
  have all4: "xs = [xs ! 0, xs ! 1, xs ! 2, xs ! 3]" if "length xs = 4" for xs :: "string list"
    using that by (intro nth_equalityI) (auto simp: less_Suc_eq eval_nat_numeral)
  have rows: "map c_str (row (extend_page_buffer_rows rendered_buffer))
       = [''AVR not detected    '', ''                    '', ''Flow Rate  ---.- LPM'',
          ''Up                  '']"
    using extend_page_buffer_rows_pads [OF a s]
    apply (subst all4 [of "map c_str (row (extend_page_buffer_rows rendered_buffer))"])
     apply (simp add: LCD_NUM_ROWS_def)
    apply (simp add: LCD_NUM_ROWS_def LCD_NUM_VISIBLE_COLUMNS_def rendered_buffer_def strlen_def
        c_str_def NUL_def eval_nat_numeral All_less_Suc)
    done
  from s have "strlen (row rendered_buffer ! 0) \<le> LCD_NUM_VISIBLE_COLUMNS"
    and "strlen (row rendered_buffer ! 1) \<le> LCD_NUM_VISIBLE_COLUMNS"
    and "strlen (row rendered_buffer ! 2) \<le> LCD_NUM_VISIBLE_COLUMNS"
    and "strlen (row rendered_buffer ! 3) \<le> LCD_NUM_VISIBLE_COLUMNS"
    by (simp_all add: LCD_NUM_ROWS_def)
  with a rows show ?thesis by simp
qed

section \<open>Dispatch\<close>

lemma clear_is_blank: "clear_buffer_rows b = handle_page_blank b"
  by (simp add: clear_buffer_rows_def handle_page_blank_def)

lemma handle_page_blank_idem:
  assumes "length (row b) = LCD_NUM_ROWS"
  shows "handle_page_blank (handle_page_blank b) = handle_page_blank b"
proof -
  have 1: "row (handle_page_blank b) = map (\<lambda>r. r[0 := NUL]) (row b)"
    by (rule row_handle_page_blank [OF assms])
  then have "length (row (handle_page_blank b)) = LCD_NUM_ROWS" using assms by simp
  from row_handle_page_blank [OF this]
  have "row (handle_page_blank (handle_page_blank b)) = row (handle_page_blank b)"
    unfolding 1 by simp
  then show ?thesis by simp
qed

text \<open>
  In its three error branches the function returns normally, logs one error, and hands
  back the buffer and the rest of the state exactly as it received them: no handler runs.
\<close>

lemma dispatch_error_keeps_buffer:
  assumes "int (length specs) = DISPLAY_PAGE_LAST"
  shows "(\<not> (0 \<le> p \<and> p < DISPLAY_PAGE_LAST) \<longrightarrow>
            dispatch_to_handler render specs b p w = Inr (b, w, [LOGE_out_of_range p]))
       \<and> (0 \<le> p \<and> p < DISPLAY_PAGE_LAST \<and> spec_id (specs ! nat p) \<noteq> p \<longrightarrow>
            dispatch_to_handler render specs b p w = Inr (b, w, [LOGE_spec_mismatch p]))
       \<and> (0 \<le> p \<and> p < DISPLAY_PAGE_LAST \<and> spec_id (specs ! nat p) = p
            \<and> spec_handler (specs ! nat p) = None \<longrightarrow>
            dispatch_to_handler render specs b p w = Inr (b, w, [LOGE_no_handler p]))"
  using assms by (simp add: dispatch_to_handler_def)

text \<open>
  In \<open>display_task\<close> every row is emptied right before each dispatch. On such a buffer
  the untouched buffer is the one \<open>_handle_page_blank\<close> produces, so there the error
  branches end with blank rows although no handler has run.
\<close>

lemma dispatch_error_on_cleared_buffer:
  assumes "int (length specs) = DISPLAY_PAGE_LAST" and "length (row b) = LCD_NUM_ROWS"
  shows "(\<not> (0 \<le> p \<and> p < DISPLAY_PAGE_LAST) \<longrightarrow>
            dispatch_to_handler render specs (clear_buffer_rows b) p w
              = Inr (handle_page_blank (clear_buffer_rows b), w, [LOGE_out_of_range p]))
       \<and> (0 \<le> p \<and> p < DISPLAY_PAGE_LAST \<and> spec_id (specs ! nat p) \<noteq> p \<longrightarrow>
            dispatch_to_handler render specs (clear_buffer_rows b) p w
              = Inr (handle_page_blank (clear_buffer_rows b), w, [LOGE_spec_mismatch p]))
       \<and> (0 \<le> p \<and> p < DISPLAY_PAGE_LAST \<and> spec_id (specs ! nat p) = p
            \<and> spec_handler (specs ! nat p) = None \<longrightarrow>
            dispatch_to_handler render specs (clear_buffer_rows b) p w
              = Inr (handle_page_blank (clear_buffer_rows b), w, [LOGE_no_handler p]))"
  using dispatch_error_keeps_buffer [OF assms(1), of p render "clear_buffer_rows b" w]
    handle_page_blank_idem [OF assms(2)]
  by (simp add: clear_is_blank)




section \<open>Splitting a time\<close>

lemma recompose_nat:
  fixes n :: nat
  shows "n div 60 div 60 div 24 * 86400 + n div 60 div 60 mod 24 * 3600
           + n div 60 mod 60 * 60 + n mod 60 = n"
proof -
  define a where "a = n div 60"
  define b where "b = a div 60"
  have e1: "q * 86400 + r * 3600 = (q * 24 + r) * 3600" for q r :: nat by simp
  have e2: "q * 3600 + r * 60 = (q * 60 + r) * 60" for q r :: nat by simp
  have "b div 24 * 86400 + b mod 24 * 3600 = (b div 24 * 24 + b mod 24) * 3600"
    by (rule e1)
  also have "\<dots> = b * 3600" by (simp only: div_mult_mod_eq)
  finally have hb: "b div 24 * 86400 + b mod 24 * 3600 = b * 3600" .
  have "a div 60 * 3600 + a mod 60 * 60 = (a div 60 * 60 + a mod 60) * 60"
    by (rule e2)
  also have "\<dots> = a * 60" by (simp only: div_mult_mod_eq)
  finally have ha: "b * 3600 + a mod 60 * 60 = a * 60" by (simp only: b_def)
  have hn: "a * 60 + n mod 60 = n" unfolding a_def by (simp only: div_mult_mod_eq)
  have "b div 24 * 86400 + b mod 24 * 3600 + a mod 60 * 60 + n mod 60 = n"
    by (simp only: hb ha hn)
  then show ?thesis by (simp only: a_def b_def)
qed

text \<open>
  C10. Splitting a time. For every 32-bit number of seconds the hours are below 24, the
  minutes and the seconds below 60, and days, hours, minutes and seconds, read as natural
  numbers, recompose to the input exactly; so the recomposition stays below \<open>2 ^ 32\<close>
  and also holds in 32-bit arithmetic.
\<close>

theorem split_time_recomposes:
  "case split_time t of (days, hours, minutes, seconds) \<Rightarrow>
     unat hours < 24 \<and> unat minutes < 60 \<and> unat seconds < 60
     \<and> unat days * 86400 + unat hours * 3600 + unat minutes * 60 + unat seconds = unat t
     \<and> days * 86400 + hours * 3600 + minutes * 60 + seconds = t"
proof -
  have h: "unat (t div 60 div 60 mod 24) = unat t div 60 div 60 mod 24"
    and m: "unat (t div 60 mod 60) = unat t div 60 mod 60"
    and s: "unat (t mod 60) = unat t mod 60"
    and d: "unat (t div 60 div 60 div 24) = unat t div 60 div 60 div 24"
    by (simp_all add: unat_div unat_mod)
  have nat_eq: "unat (t div 60 div 60 div 24) * 86400 + unat (t div 60 div 60 mod 24) * 3600
                  + unat (t div 60 mod 60) * 60 + unat (t mod 60) = unat t"
    unfolding h m s d by (rule recompose_nat)
  have "word_of_nat (unat (t div 60 div 60 div 24) * 86400
            + unat (t div 60 div 60 mod 24) * 3600
            + unat (t div 60 mod 60) * 60 + unat (t mod 60)) = (word_of_nat (unat t) :: 32 word)"
    by (simp only: nat_eq)
  then have word_eq: "t div 60 div 60 div 24 * 86400 + t div 60 div 60 mod 24 * 3600
                        + t div 60 mod 60 * 60 + t mod 60 = t"
    by simp
  show ?thesis
    unfolding split_time_def prod.case
    using nat_eq word_eq by (simp add: h m s)
qed

end
